theory Spec2Isabelle
  imports Main
begin

section \<open>JavaScript values\<close>

text \<open>
  The cells of a sheet and the properties of a record hold JavaScript values. Numbers
  are the integers (row numbers, counters, integer ids); dates and fractions do not occur
  in any operation modelled here.
\<close>

datatype val = VUndef | VNull | VStr string | VNum int | VBool bool

text \<open>The empty string: what the spreadsheet service returns for an empty cell.\<close>

definition blank :: val where
  "blank = VStr []"

definition digit_char :: "nat \<Rightarrow> char" where
  "digit_char n = ''0123456789'' ! n"

fun nat_digits :: "nat \<Rightarrow> string" where
  "nat_digits n =
     (if n < 10 then [digit_char n] else nat_digits (n div 10) @ [digit_char (n mod 10)])"

declare nat_digits.simps [simp del]

text \<open>\<^verbatim>\<open>String(v)\<close>, also the coercion of a value used as a property name.\<close>

fun js_String :: "val \<Rightarrow> string" where
  "js_String VUndef = ''undefined''"
| "js_String VNull = ''null''"
| "js_String (VStr s) = s"
| "js_String (VNum n) = (if n < 0 then CHR ''-'' # nat_digits (nat (- n)) else nat_digits (nat n))"
| "js_String (VBool b) = (if b then ''true'' else ''false'')"

text \<open>\<^verbatim>\<open>!!v\<close>.\<close>

fun js_truthy :: "val \<Rightarrow> bool" where
  "js_truthy VUndef = False"
| "js_truthy VNull = False"
| "js_truthy (VStr s) = (s \<noteq> [])"
| "js_truthy (VNum n) = (n \<noteq> 0)"
| "js_truthy (VBool b) = b"

text \<open>\<^verbatim>\<open>xs[i]\<close> on an array: \<^verbatim>\<open>undefined\<close> out of range.\<close>

definition js_nth :: "val list \<Rightarrow> nat \<Rightarrow> val" where
  "js_nth xs i = (if i < length xs then xs ! i else VUndef)"

text \<open>\<^verbatim>\<open>xss[0]\<close> on an array of rows (no row: no cells).\<close>

definition first_row :: "val list list \<Rightarrow> val list" where
  "first_row xss = (case xss of [] \<Rightarrow> [] | xs # _ \<Rightarrow> xs)"

text \<open>
  \<^verbatim>\<open>xs.splice(start, 1, x)\<close>: a negative start counts from the end, a start past the
  end appends.
\<close>

definition splice1 :: "'a list \<Rightarrow> int \<Rightarrow> 'a \<Rightarrow> 'a list" where
  "splice1 xs start x =
     (let n = int (length xs);
          s = (if start < 0 then max (n + start) 0 else min start n)
      in take (nat s) xs @ [x] @ drop (nat s + 1) xs)"

section \<open>Records\<close>

text \<open>
  A record object: the reserved identity property \<^verbatim>\<open>_key\<close> (absent, \<^verbatim>\<open>undefined\<close> and
  \<^verbatim>\<open>null\<close> are \<open>None\<close>; a row number otherwise) and the properties named by the
  headers. \<^verbatim>\<open>_key\<close> is kept apart from the header-named properties: a sheet with a column
  that is itself headed \<^verbatim>\<open>_key\<close> is outside this record type.
\<close>

record sdrec =
  rkey :: "int option"
  props :: "string \<rightharpoonup> val"

definition key_val :: "int option \<Rightarrow> val" where
  "key_val k = (case k of None \<Rightarrow> VUndef | Some n \<Rightarrow> VNum n)"

text \<open>\<^verbatim>\<open>rec[p]\<close>.\<close>

definition get_prop :: "sdrec \<Rightarrow> string \<Rightarrow> val" where
  "get_prop r p =
     (if p = ''_key'' then key_val (rkey r)
      else (case props r p of None \<Rightarrow> VUndef | Some v \<Rightarrow> v))"

text \<open>\<^verbatim>\<open>!rec._key\<close> is false exactly for a key that is a number other than 0.\<close>

definition key_truthy :: "sdrec \<Rightarrow> bool" where
  "key_truthy r = js_truthy (key_val (rkey r))"

text \<open>\<^verbatim>\<open>rec._key !== undefined && rec._key !== null\<close>.\<close>

definition has_key :: "sdrec \<Rightarrow> bool" where
  "has_key r = (rkey r \<noteq> None)"

definition ROW_INDEX_OFFSET :: int where
  "ROW_INDEX_OFFSET = 2"

definition getRowAsObject :: "val list \<Rightarrow> int \<Rightarrow> val list \<Rightarrow> sdrec" where
  "getRowAsObject row index headers =
     \<lparr> rkey = Some (index + ROW_INDEX_OFFSET),
       props = foldl (\<lambda>m (i, header). m(js_String header \<mapsto> js_nth row i)) Map.empty
                 (enumerate 0 headers) \<rparr>"

text \<open>\<^verbatim>\<open>headers.map(h => rec[h])\<close>, the row written for a record.\<close>

definition record_row :: "val list \<Rightarrow> sdrec \<Rightarrow> val list" where
  "record_row headers r = map (\<lambda>header. get_prop r (js_String header)) headers"

section \<open>Objects used as dictionaries\<close>

text \<open>
  \<^verbatim>\<open>index(key)\<close> and \<^verbatim>\<open>related(key)\<close> build a plain object \<^verbatim>\<open>{}\<close> whose property names are
  the string forms of the values of a field. A plain object inherits from
  \<^verbatim>\<open>Object.prototype\<close>; these are the names of its members. Reading \<^verbatim>\<open>obj[s]\<close> for one of
  them gives a function, or for \<^verbatim>\<open>__proto__\<close> the prototype itself, and never \<^verbatim>\<open>undefined\<close>.
  The names of properties (the headers of a sheet, the field handed to \<^verbatim>\<open>index\<close>,
  \<^verbatim>\<open>related\<close>, \<^verbatim>\<open>enforceUnique\<close> or \<^verbatim>\<open>find\<close>) are taken not to be among them; the values of
  fields are not restricted.
\<close>

definition object_prototype :: "string list" where
  "object_prototype =
     [''constructor'', ''__defineGetter__'', ''__defineSetter__'', ''hasOwnProperty'',
      ''__lookupGetter__'', ''__lookupSetter__'', ''isPrototypeOf'', ''propertyIsEnumerable'',
      ''toString'', ''valueOf'', ''__proto__'', ''toLocaleString'']"

text \<open>
  An object whose entries are records is the map of its entries, with one convention: the
  entry at \<^verbatim>\<open>__proto__\<close> stands for the prototype of the object. \<^verbatim>\<open>obj['__proto__'] = rec\<close>
  creates no property: it makes \<open>rec\<close> the prototype of \<open>obj\<close>, and \<^verbatim>\<open>obj['__proto__']\<close> reads
  \<open>rec\<close> back. Every other assignment creates or overwrites a property of the object's own.

  What \<^verbatim>\<open>obj[s]\<close> yields: a record (an own property, or the prototype read back), a value
  inherited from a record that is the prototype, a member of \<^verbatim>\<open>Object.prototype\<close>, or
  \<^verbatim>\<open>undefined\<close>.
\<close>

datatype entry = Record sdrec | Inherited val | Native string | Absent

definition native :: "string \<Rightarrow> entry" where
  "native s = (if s \<in> set object_prototype then Native s else Absent)"

definition js_get :: "(string \<rightharpoonup> sdrec) \<Rightarrow> string \<Rightarrow> entry" where
  "js_get obj s =
     (case obj s of
        Some r \<Rightarrow> Record r
      | None \<Rightarrow>
          (case obj ''__proto__'' of
             None \<Rightarrow> native s
           | Some p \<Rightarrow>
               if s = ''_key'' \<and> rkey p \<noteq> None then Inherited (key_val (rkey p))
               else (case props p s of None \<Rightarrow> native s | Some v \<Rightarrow> Inherited v)))"

text \<open>\<^verbatim>\<open>x === undefined\<close> and \<^verbatim>\<open>!!x\<close> for what a read yields.\<close>

fun is_undefined :: "entry \<Rightarrow> bool" where
  "is_undefined Absent = True"
| "is_undefined (Inherited v) = (v = VUndef)"
| "is_undefined (Record r) = False"
| "is_undefined (Native s) = False"

fun entry_truthy :: "entry \<Rightarrow> bool" where
  "entry_truthy Absent = False"
| "entry_truthy (Inherited v) = js_truthy v"
| "entry_truthy (Record r) = True"
| "entry_truthy (Native s) = True"

text \<open>
  \<^verbatim>\<open>{...x}\<close>, the own enumerable properties of what a read yields: those of a record, the
  characters of a string by position, none for a number, a boolean or a member of
  \<^verbatim>\<open>Object.prototype\<close>.
\<close>

fun spread :: "entry \<Rightarrow> sdrec" where
  "spread (Record r) = r"
| "spread (Inherited (VStr s)) =
     \<lparr> rkey = None, props = map_of (map (\<lambda>(i, ch). (nat_digits i, VStr [ch])) (enumerate 0 s)) \<rparr>"
| "spread (Inherited v) = \<lparr> rkey = None, props = Map.empty \<rparr>"
| "spread (Native s) = \<lparr> rkey = None, props = Map.empty \<rparr>"
| "spread Absent = \<lparr> rkey = None, props = Map.empty \<rparr>"

section \<open>The spreadsheet service\<close>

text \<open>
  The sheet behind a collection, as the operations use it. The grid is the list of the
  sheet's rows (\<open>length\<close> is \<^verbatim>\<open>getMaxRows()\<close>); a cell outside a row's list is empty.
  Strings, numbers and booleans are stored as written; \<^verbatim>\<open>undefined\<close> and \<^verbatim>\<open>null\<close> leave
  an empty cell. Reads outside the grid return empty cells and writes extend the grid.
  The text finder's matching of a query against a cell (with its three options) is a
  component of the service: the general theorems hold whatever it matches, the examples
  fix one. The script lock
  becomes free after \<open>lock_free_after\<close> milliseconds (\<open>None\<close>: never). Every call of the
  service is appended to \<open>calls\<close>.
\<close>

type_synonym cells = "val list list"

datatype event =
    GetLastRow | GetLastColumn | GetMaxRows | GetMaxColumns
  | GetValues nat nat nat nat
  | SetValues nat nat "val list list"
  | AppendRow "val list"
  | ClearRange nat nat nat nat
  | DeleteRows nat nat
  | FindNext val
  | FindAll val
  | TryLock nat | HasLock | ReleaseLock

fun is_write :: "event \<Rightarrow> bool" where
  "is_write (SetValues r c vss) = True"
| "is_write (AppendRow vs) = True"
| "is_write (ClearRange r c nr nc) = True"
| "is_write (DeleteRows r n) = True"
| "is_write e = False"

fun is_set_values :: "event \<Rightarrow> bool" where
  "is_set_values (SetValues r c vss) = True"
| "is_set_values e = False"

record gsheet =
  grid :: cells
  text_matches :: "val \<Rightarrow> bool \<Rightarrow> bool \<Rightarrow> bool \<Rightarrow> val \<Rightarrow> bool"
  lock_free_after :: "nat option"
  lock_held :: bool
  calls :: "event list"

definition stored :: "val \<Rightarrow> val" where
  "stored v = (case v of VUndef \<Rightarrow> blank | VNull \<Rightarrow> blank | _ \<Rightarrow> v)"

definition cell_at :: "cells \<Rightarrow> nat \<Rightarrow> nat \<Rightarrow> val" where
  "cell_at g r c =
     (if 1 \<le> r \<and> r \<le> length g \<and> 1 \<le> c \<and> c \<le> length (g ! (r - 1))
      then g ! (r - 1) ! (c - 1) else blank)"

definition row_blank :: "val list \<Rightarrow> bool" where
  "row_blank row = list_all (\<lambda>v. v = blank) row"

definition last_row :: "cells \<Rightarrow> nat" where
  "last_row g = length (dropWhile row_blank (rev g))"

definition used_width :: "val list \<Rightarrow> nat" where
  "used_width row = length (dropWhile (\<lambda>v. v = blank) (rev row))"

definition last_column :: "cells \<Rightarrow> nat" where
  "last_column g = foldr (\<lambda>row m. max (used_width row) m) g 0"

definition max_columns :: "cells \<Rightarrow> nat" where
  "max_columns g = foldr (\<lambda>row m. max (length row) m) g 0"

definition block :: "cells \<Rightarrow> nat \<Rightarrow> nat \<Rightarrow> nat \<Rightarrow> nat \<Rightarrow> val list list" where
  "block g r c nr nc = map (\<lambda>i. map (\<lambda>j. cell_at g (r + i) (c + j)) [0..<nc]) [0..<nr]"

definition pad :: "nat \<Rightarrow> 'a \<Rightarrow> 'a list \<Rightarrow> 'a list" where
  "pad n x xs = xs @ replicate (n - length xs) x"

definition put_cells :: "val list \<Rightarrow> nat \<Rightarrow> val list \<Rightarrow> val list" where
  "put_cells row c vs =
     (let row' = pad (c - 1 + length vs) blank row
      in take (c - 1) row' @ map stored vs @ drop (c - 1 + length vs) row')"

definition put_row :: "cells \<Rightarrow> nat \<Rightarrow> nat \<Rightarrow> val list \<Rightarrow> cells" where
  "put_row g r c vs = (let g' = pad r [] g in g'[r - 1 := put_cells (g' ! (r - 1)) c vs])"

fun put_block :: "cells \<Rightarrow> nat \<Rightarrow> nat \<Rightarrow> val list list \<Rightarrow> cells" where
  "put_block g r c [] = g"
| "put_block g r c (vs # vss) = put_block (put_row g r c vs) (Suc r) c vss"

definition clear_cells :: "cells \<Rightarrow> nat \<Rightarrow> nat \<Rightarrow> nat \<Rightarrow> nat \<Rightarrow> cells" where
  "clear_cells g r c nr nc =
     map (\<lambda>(i, row).
            if r \<le> Suc i \<and> Suc i < r + nr
            then map (\<lambda>(j, v). if c \<le> Suc j \<and> Suc j < c + nc then blank else v) (enumerate 0 row)
            else row)
         (enumerate 0 g)"

definition logged :: "event \<Rightarrow> gsheet \<Rightarrow> gsheet" where
  "logged e sh = sh\<lparr>calls := calls sh @ [e]\<rparr>"

definition getLastRow :: "gsheet \<Rightarrow> nat \<times> gsheet" where
  "getLastRow sh = (last_row (grid sh), logged GetLastRow sh)"

definition getLastColumn :: "gsheet \<Rightarrow> nat \<times> gsheet" where
  "getLastColumn sh = (last_column (grid sh), logged GetLastColumn sh)"

definition getMaxRows :: "gsheet \<Rightarrow> nat \<times> gsheet" where
  "getMaxRows sh = (length (grid sh), logged GetMaxRows sh)"

definition getMaxColumns :: "gsheet \<Rightarrow> nat \<times> gsheet" where
  "getMaxColumns sh = (max_columns (grid sh), logged GetMaxColumns sh)"

text \<open>\<^verbatim>\<open>getRange(r, c, nr, nc).getValues()\<close> and \<^verbatim>\<open>getSheetValues(r, c, nr, nc)\<close>.\<close>

definition getValues :: "nat \<Rightarrow> nat \<Rightarrow> nat \<Rightarrow> nat \<Rightarrow> gsheet \<Rightarrow> val list list \<times> gsheet" where
  "getValues r c nr nc sh = (block (grid sh) r c nr nc, logged (GetValues r c nr nc) sh)"

text \<open>\<^verbatim>\<open>getRange(r, c, ..).setValues(vss)\<close>.\<close>

definition setValues :: "nat \<Rightarrow> nat \<Rightarrow> val list list \<Rightarrow> gsheet \<Rightarrow> gsheet" where
  "setValues r c vss sh = logged (SetValues r c vss) (sh\<lparr>grid := put_block (grid sh) r c vss\<rparr>)"

definition appendRow :: "val list \<Rightarrow> gsheet \<Rightarrow> gsheet" where
  "appendRow vs sh =
     logged (AppendRow vs) (sh\<lparr>grid := put_row (grid sh) (Suc (last_row (grid sh))) 1 vs\<rparr>)"

text \<open>\<^verbatim>\<open>getRange(r, c, nr, nc).clear()\<close>.\<close>

definition clearRange :: "nat \<Rightarrow> nat \<Rightarrow> nat \<Rightarrow> nat \<Rightarrow> gsheet \<Rightarrow> gsheet" where
  "clearRange r c nr nc sh =
     logged (ClearRange r c nr nc) (sh\<lparr>grid := clear_cells (grid sh) r c nr nc\<rparr>)"

definition deleteRows :: "nat \<Rightarrow> nat \<Rightarrow> gsheet \<Rightarrow> gsheet" where
  "deleteRows r n sh =
     logged (DeleteRows r n) (sh\<lparr>grid := take (r - 1) (grid sh) @ drop (r - 1 + n) (grid sh)\<rparr>)"

text \<open>
  \<^verbatim>\<open>getRange(r, c, nr).createTextFinder(q).findNext()\<close> followed by \<^verbatim>\<open>getRow()\<close>: the
  first row of the one-column range whose cell matches, with the finder's default
  options.
\<close>

definition findNext :: "nat \<Rightarrow> nat \<Rightarrow> nat \<Rightarrow> val \<Rightarrow> gsheet \<Rightarrow> nat option \<times> gsheet" where
  "findNext r c nr q sh =
     (List.find (\<lambda>i. text_matches sh q False False False (cell_at (grid sh) i c)) [r..<r + nr],
      logged (FindNext q) sh)"

text \<open>
  \<^verbatim>\<open>sheet.createTextFinder(q)\<close> with its options set, \<^verbatim>\<open>findAll()\<close>, and \<^verbatim>\<open>getRow()\<close> of
  each match: one row number per matching cell, in sheet order.
\<close>

definition findAll :: "val \<Rightarrow> bool \<Rightarrow> bool \<Rightarrow> bool \<Rightarrow> gsheet \<Rightarrow> nat list \<times> gsheet" where
  "findAll q regex matchCell matchCase sh =
     (concat (map (\<lambda>(i, row). map (\<lambda>v. Suc i) (filter (text_matches sh q regex matchCell matchCase) row))
                  (enumerate 0 (grid sh))),
      logged (FindAll q) sh)"

text \<open>
  \<^verbatim>\<open>lock.tryLock(ms)\<close> gets the lock when it is held already or becomes free within the
  wait.
\<close>

definition acquires :: "nat \<Rightarrow> gsheet \<Rightarrow> bool" where
  "acquires ms sh =
     (lock_held sh \<or> (case lock_free_after sh of None \<Rightarrow> False | Some d \<Rightarrow> d \<le> ms))"

definition tryLock :: "nat \<Rightarrow> gsheet \<Rightarrow> gsheet" where
  "tryLock ms sh = logged (TryLock ms) (sh\<lparr>lock_held := acquires ms sh\<rparr>)"

definition hasLock :: "gsheet \<Rightarrow> bool \<times> gsheet" where
  "hasLock sh = (lock_held sh, logged HasLock sh)"

definition releaseLock :: "gsheet \<Rightarrow> gsheet" where
  "releaseLock sh = logged ReleaseLock (sh\<lparr>lock_held := False\<rparr>)"

section \<open>Collections\<close>

text \<open>
  The failures of the operations. The source throws \<^verbatim>\<open>Error\<close> objects told apart by
  their messages; the constructors carry the specification's names:
  \<open>ConflictError\<close> "... prop value ... already exists!",
  \<open>WriteConflictError\<close> "Add transaction error, try again!",
  \<open>StaleWriteError\<close> "Id at row ... does not match id of object for ...",
  \<open>LockTimeoutError\<close> "Could not perform batch operation, please try again!",
  \<open>NotFoundError\<close> "Could not patch record with key ... Key not found!",
  \<open>TransactionAlreadyCompleteError\<close> "Preflight transaction already complete!",
  \<open>AddFailedError\<close> "Something went wrong with the add operation!",
  \<open>ValidationError\<close> whatever the schema hook throws, \<open>ServiceError\<close> the
  service's refusal of a range whose row is not a positive number, and \<open>TypeError\<close> the
  runtime's "... is not a function".
\<close>

datatype error =
    ConflictError | WriteConflictError | StaleWriteError | LockTimeoutError
  | NotFoundError | TransactionAlreadyCompleteError | AddFailedError
  | ValidationError | ServiceError | TypeError

text \<open>
  The optional schema hook: \<^verbatim>\<open>schema.exec(rec, {isNew, throwError: true})\<close> (\<open>None\<close> when it
  throws) and \<^verbatim>\<open>schema.parse(rec)\<close>.
\<close>

record schema_hook =
  exec :: "sdrec \<Rightarrow> bool \<Rightarrow> sdrec option"
  parse :: "sdrec \<Rightarrow> sdrec"

text \<open>
  The fields of \<^verbatim>\<open>SheetDataCollection\<close>: \<open>c_data\<close>, \<open>c_index\<close> and \<open>c_related\<close> are
  \<^verbatim>\<open>_data\<close>, \<^verbatim>\<open>_index\<close> and \<^verbatim>\<open>_related\<close> (\<open>None\<close> is \<^verbatim>\<open>null\<close>, a missing property of the
  two cache objects is \<open>None\<close>). An index cached in \<open>c_index\<close> is an object whose entries are
  records, as described above; a grouping cached in \<open>c_related\<close> is the map of its own
  properties, and its prototype is never replaced.
\<close>

record collection =
  sheet :: gsheet
  schema :: "schema_hook option"
  c_data :: "sdrec list option"
  c_index :: "string \<rightharpoonup> (string \<rightharpoonup> sdrec)"
  c_related :: "string \<rightharpoonup> (string \<rightharpoonup> sdrec list)"
  pkColumnIndex :: nat
  headerRow :: "val list"
  COLUMN_COUNT :: nat

definition pk :: "nat \<Rightarrow> collection \<Rightarrow> collection" where
  "pk i c = c\<lparr>pkColumnIndex := i\<rparr>"

definition init :: "collection \<Rightarrow> collection" where
  "init c =
     (case getLastColumn (sheet c) of (n, sh1) \<Rightarrow>
        if c_data c = None
        then (case getValues 1 1 1 n sh1 of (vss, sh2) \<Rightarrow>
                c\<lparr>sheet := sh2, COLUMN_COUNT := n, headerRow := first_row vss\<rparr>)
        else c\<lparr>sheet := sh1, COLUMN_COUNT := n\<rparr>)"

definition rowCount :: "collection \<Rightarrow> nat \<times> collection" where
  "rowCount c = (case getLastRow (sheet c) of (n, sh1) \<Rightarrow> (n, c\<lparr>sheet := sh1\<rparr>))"

text \<open>\<^verbatim>\<open>_values()\<close>.\<close>

definition sheet_values :: "collection \<Rightarrow> val list list \<times> collection" where
  "sheet_values c =
     (case rowCount c of (n, c1) \<Rightarrow>
      case getLastColumn (sheet c1) of (m, sh2) \<Rightarrow>
      case getValues 1 1 n m sh2 of (vss, sh3) \<Rightarrow> (vss, c1\<lparr>sheet := sh3\<rparr>))"

definition getObject :: "collection \<Rightarrow> val list \<Rightarrow> int \<Rightarrow> sdrec" where
  "getObject c row index =
     (let obj = getRowAsObject row index (headerRow c)
      in case schema c of None \<Rightarrow> obj | Some s \<Rightarrow> parse s obj)"

definition getRecordsToSave :: "collection \<Rightarrow> sdrec list \<Rightarrow> sdrec list option" where
  "getRecordsToSave c records =
     (case schema c of
        None \<Rightarrow> Some records
      | Some s \<Rightarrow> those (map (\<lambda>r. exec s r (\<not> key_truthy r)) records))"

definition getFromSchemaRecords :: "collection \<Rightarrow> sdrec list \<Rightarrow> sdrec list" where
  "getFromSchemaRecords c records =
     (case schema c of None \<Rightarrow> records | Some s \<Rightarrow> map (parse s) records)"

definition clearCached :: "collection \<Rightarrow> collection" where
  "clearCached c = c\<lparr>c_data := None, c_index := Map.empty, c_related := Map.empty\<rparr>"

text \<open>The rows that \<^verbatim>\<open>data()\<close> keeps of the rows below the header, as records.\<close>

definition kept_rows :: "collection \<Rightarrow> val list list \<Rightarrow> sdrec list" where
  "kept_rows c rows =
     concat (map (\<lambda>(index, row).
                    if js_nth row (pkColumnIndex c) \<noteq> VStr [] then [getObject c row (int index)]
                    else [])
                 (enumerate 0 rows))"

definition data :: "collection \<Rightarrow> sdrec list \<times> collection" where
  "data c =
     (case c_data c of
        Some d \<Rightarrow> (d, c)
      | None \<Rightarrow>
          (case sheet_values c of (vss, c1) \<Rightarrow>
             (let c2 = c1\<lparr>headerRow := first_row vss\<rparr>;
                  d = kept_rows c2 (tl vss)
              in (d, c2\<lparr>c_data := Some d\<rparr>))))"

text \<open>
  The object \<^verbatim>\<open>index(key)\<close> builds by \<^verbatim>\<open>obj[record[key]] = record\<close>: later records overwrite
  earlier ones (at \<^verbatim>\<open>__proto__\<close>, the later record becomes the prototype).
\<close>

definition build_index :: "string \<Rightarrow> sdrec list \<Rightarrow> (string \<rightharpoonup> sdrec)" where
  "build_index k d = foldl (\<lambda>obj r. obj(js_String (get_prop r k) \<mapsto> r)) Map.empty d"

definition index :: "string \<Rightarrow> collection \<Rightarrow> (string \<rightharpoonup> sdrec) \<times> collection" where
  "index k c =
     (case c_index c k of
        Some idx \<Rightarrow> (idx, c)
      | None \<Rightarrow>
          (case data c of (d, c1) \<Rightarrow>
             (let idx = build_index k d in (idx, c1\<lparr>c_index := (c_index c1)(k \<mapsto> idx)\<rparr>))))"

text \<open>
  One step of the \<^verbatim>\<open>reduce\<close> of \<^verbatim>\<open>related(key)\<close>. \<^verbatim>\<open>obj[record[key]]\<close> is \<^verbatim>\<open>undefined\<close> for a
  name that is neither a property of \<open>obj\<close> nor a member of \<^verbatim>\<open>Object.prototype\<close>, and the
  record starts a list there. A property of \<open>obj\<close> is a list, and the record is pushed. A
  member of \<^verbatim>\<open>Object.prototype\<close> is truthy and has no \<^verbatim>\<open>push\<close>: the call throws a
  \<open>TypeError\<close>.
\<close>

definition related_step ::
  "string \<Rightarrow> (string \<rightharpoonup> sdrec list) \<Rightarrow> sdrec \<Rightarrow> error + (string \<rightharpoonup> sdrec list)" where
  "related_step k obj r =
     (case obj (js_String (get_prop r k)) of
        None \<Rightarrow>
          if js_String (get_prop r k) \<in> set object_prototype then Inl TypeError
          else Inr (obj(js_String (get_prop r k) \<mapsto> [r]))
      | Some rs \<Rightarrow> Inr (obj(js_String (get_prop r k) \<mapsto> rs @ [r])))"

definition build_related :: "string \<Rightarrow> sdrec list \<Rightarrow> error + (string \<rightharpoonup> sdrec list)" where
  "build_related k d =
     foldl (\<lambda>acc r. case acc of Inl e \<Rightarrow> Inl e | Inr obj \<Rightarrow> related_step k obj r)
           (Inr Map.empty) d"

definition related ::
  "string \<Rightarrow> collection \<Rightarrow> (error + (string \<rightharpoonup> sdrec list)) \<times> collection" where
  "related k c =
     (case c_related c k of
        Some rel \<Rightarrow> (Inr rel, c)
      | None \<Rightarrow>
          (case data c of (d, c1) \<Rightarrow>
             (case build_related k d of
                Inl e \<Rightarrow> (Inl e, c1)
              | Inr rel \<Rightarrow> (Inr rel, c1\<lparr>c_related := (c_related c1)(k \<mapsto> rel)\<rparr>))))"

text \<open>
  \<^verbatim>\<open>enforceUnique(rec, prop)\<close>: without a \<^verbatim>\<open>_key\<close>, the test \<^verbatim>\<open>index[rec[prop]] !== undefined\<close> on
  the index object; with one, \<^verbatim>\<open>Set.has\<close> on the values of the other records.
\<close>

definition enforceUnique :: "sdrec \<Rightarrow> string \<Rightarrow> collection \<Rightarrow> (error + unit) \<times> collection" where
  "enforceUnique r p c =
     (if \<not> key_truthy r
      then (case index p c of (idx, c1) \<Rightarrow>
              if \<not> is_undefined (js_get idx (js_String (get_prop r p))) then (Inl ConflictError, c1)
              else (Inr (), c1))
      else (case data c of (d, c1) \<Rightarrow>
              (let others = filter (\<lambda>oth. rkey oth \<noteq> rkey r) d
               in if get_prop r p \<in> set (map (\<lambda>oth. get_prop oth p) others)
                  then (Inl ConflictError, c1)
                  else (Inr (), c1))))"

text \<open>
  \<^verbatim>\<open>find(key, index)\<close>, that is \<^verbatim>\<open>this.index(index)[key]\<close>: the value \<open>v\<close> looked up is coerced to
  a property name.
\<close>

definition find_rec :: "val \<Rightarrow> string \<Rightarrow> collection \<Rightarrow> entry \<times> collection" where
  "find_rec v k c = (case index k c of (idx, c1) \<Rightarrow> (js_get idx (js_String v), c1))"

text \<open>\<^verbatim>\<open>fts({q, regex, matchCell, matchCase})\<close>: one record per matching cell.\<close>

fun fts_rows :: "nat list \<Rightarrow> collection \<Rightarrow> sdrec list \<times> collection" where
  "fts_rows [] c = ([], c)"
| "fts_rows (rowNum # rest) c =
     (case getValues rowNum 1 1 (COLUMN_COUNT c) (sheet c) of (vss, sh1) \<Rightarrow>
        (let c1 = c\<lparr>sheet := sh1\<rparr>;
             r = getObject c1 (first_row vss) (int rowNum - ROW_INDEX_OFFSET)
         in case fts_rows rest c1 of (rs, c2) \<Rightarrow> (r # rs, c2)))"

definition fts :: "val \<Rightarrow> bool \<Rightarrow> bool \<Rightarrow> bool \<Rightarrow> collection \<Rightarrow> sdrec list \<times> collection" where
  "fts q regex matchCell matchCase c =
     (let c1 = init c
      in case findAll q regex matchCell matchCase (sheet c1) of (ranges, sh2) \<Rightarrow>
           fts_rows ranges (c1\<lparr>sheet := sh2\<rparr>))"

text \<open>
  The test of \<^verbatim>\<open>lookup\<close>, \<^verbatim>\<open>!this._data === null\<close>: the negation binds first, so a boolean
  is compared with \<^verbatim>\<open>null\<close>.
\<close>

definition bool_is_null :: "bool \<Rightarrow> bool" where
  "bool_is_null b = False"

text \<open>\<^verbatim>\<open>rs.find(p)\<close>: the first record that passes, or \<^verbatim>\<open>undefined\<close>.\<close>

definition array_find :: "(sdrec \<Rightarrow> bool) \<Rightarrow> sdrec list \<Rightarrow> entry" where
  "array_find p rs = (case List.find p rs of None \<Rightarrow> Absent | Some r \<Rightarrow> Record r)"

definition lookup :: "val \<Rightarrow> string \<Rightarrow> collection \<Rightarrow> entry \<times> collection" where
  "lookup v k c =
     (if bool_is_null (c_data c = None) then find_rec v k c
      else (case fts v False True False c of (rs, c1) \<Rightarrow>
              (array_find (\<lambda>r. get_prop r k = v) rs, c1)))"

section \<open>Mutations\<close>

text \<open>
  An operation returns its outcome (the error thrown, or the value returned) and the
  collection afterwards; what it wrote before it threw stays written. \<^verbatim>\<open>add\<close>, \<^verbatim>\<open>addOne\<close>
  and \<^verbatim>\<open>upsert\<close> assign \<^verbatim>\<open>_key\<close> on the record objects they save: with \<^verbatim>\<open>bypassSchema\<close>
  these are the caller's own objects, so the three also return the caller's records as
  the call leaves them.
\<close>

text \<open>The row argument of \<^verbatim>\<open>getRange\<close> taken from a \<^verbatim>\<open>_key\<close>.\<close>

definition range_row :: "int option \<Rightarrow> nat option" where
  "range_row k = (case k of None \<Rightarrow> None | Some n \<Rightarrow> if 1 \<le> n then Some (nat n) else None)"

text \<open>\<^verbatim>\<open>_updateRow(record, recordValues, columnCount)\<close>.\<close>

definition updateRow :: "sdrec \<Rightarrow> val list \<Rightarrow> nat \<Rightarrow> collection \<Rightarrow> (error + unit) \<times> collection" where
  "updateRow r recordValues columnCount c =
     (case range_row (rkey r) of
        None \<Rightarrow> (Inl ServiceError, c)
      | Some row \<Rightarrow>
          (case getValues row 1 1 columnCount (sheet c) of (vss, sh1) \<Rightarrow>
             if js_String (js_nth (first_row vss) (pkColumnIndex c))
                  \<noteq> js_String (js_nth recordValues (pkColumnIndex c))
             then (Inl StaleWriteError, c\<lparr>sheet := sh1\<rparr>)
             else (Inr (), c\<lparr>sheet := setValues row 1 [recordValues] sh1\<rparr>)))"

text \<open>The \<^verbatim>\<open>forEach\<close> of \<^verbatim>\<open>update\<close>.\<close>

fun update_rows :: "sdrec list \<Rightarrow> collection \<Rightarrow> (error + unit) \<times> collection" where
  "update_rows [] c = (Inr (), c)"
| "update_rows (r # rs) c =
     (case updateRow r (record_row (headerRow c) r) (COLUMN_COUNT c) c of
        (Inl e, c1) \<Rightarrow> (Inl e, c1)
      | (Inr u, c1) \<Rightarrow> update_rows rs c1)"

definition update :: "sdrec list \<Rightarrow> bool \<Rightarrow> collection \<Rightarrow> (error + sdrec list) \<times> collection" where
  "update records bypassSchema c =
     (if records = [] then (Inr [], c)
      else
        (let c1 = init c
         in case (if bypassSchema then Some records else getRecordsToSave c1 records) of
              None \<Rightarrow> (Inl ValidationError, c1)
            | Some recordsToSave \<Rightarrow>
                (case update_rows recordsToSave c1 of
                   (Inl e, c2) \<Rightarrow> (Inl e, c2)
                 | (Inr u, c2) \<Rightarrow>
                     (Inr (getFromSchemaRecords c2 recordsToSave), clearCached c2))))"

definition add ::
  "sdrec list \<Rightarrow> bool \<Rightarrow> collection \<Rightarrow> (error + sdrec list) \<times> sdrec list \<times> collection" where
  "add records bypassSchema c =
     (if records = [] then (Inr [], records, c)
      else
        (let c1 = init c
         in case (if bypassSchema then Some records else getRecordsToSave c1 records) of
              None \<Rightarrow> (Inl ValidationError, records, c1)
            | Some recordsToSave \<Rightarrow>
                (case rowCount c1 of (n, c2) \<Rightarrow>
                   (let keyed = map (\<lambda>(index, r). r\<lparr>rkey := Some (int n + int index + 1)\<rparr>)
                                  (enumerate 0 recordsToSave);
                        recordArrays = map (record_row (headerRow c2)) keyed;
                        records' = (if bypassSchema then keyed else records)
                    in case getValues (n + 1) 1 (length keyed) (COLUMN_COUNT c2) (sheet c2) of
                         (vss, sh3) \<Rightarrow>
                           if js_truthy (js_nth (first_row vss) (pkColumnIndex c2))
                           then (Inl WriteConflictError, records', c2\<lparr>sheet := sh3\<rparr>)
                           else (Inr (getFromSchemaRecords c2 keyed), records',
                                 clearCached (c2\<lparr>sheet := setValues (n + 1) 1 recordArrays sh3\<rparr>))))))"

text \<open>\<^verbatim>\<open>_getRecordsToSave([rec])[0]\<close> and \<^verbatim>\<open>_getFromSchemaRecords([rec])[0]\<close>.\<close>

definition getRecordToSave :: "collection \<Rightarrow> sdrec \<Rightarrow> sdrec option" where
  "getRecordToSave c r =
     (case schema c of None \<Rightarrow> Some r | Some s \<Rightarrow> exec s r (\<not> key_truthy r))"

definition getFromSchemaRecord :: "collection \<Rightarrow> sdrec \<Rightarrow> sdrec" where
  "getFromSchemaRecord c r = (case schema c of None \<Rightarrow> r | Some s \<Rightarrow> parse s r)"

definition addOne ::
  "sdrec option \<Rightarrow> bool \<Rightarrow> collection \<Rightarrow> (error + sdrec option) \<times> sdrec option \<times> collection" where
  "addOne record_arg bypassSchema c =
     (case record_arg of
        None \<Rightarrow> (Inr None, None, c)
      | Some r0 \<Rightarrow>
          (let c1 = init c
           in case (if bypassSchema then Some r0 else getRecordToSave c1 r0) of
                None \<Rightarrow> (Inl ValidationError, Some r0, c1)
              | Some recordToSave \<Rightarrow>
                  (case rowCount c1 of (startingRowCount, c2) \<Rightarrow>
                     (let row = record_row (headerRow c2) recordToSave;
                          sh3 = appendRow row (sheet c2)
                      in case getLastRow sh3 of (n, sh4) \<Rightarrow>
                         (case findNext startingRowCount (pkColumnIndex c2 + 1) n
                                 (js_nth row (pkColumnIndex c2)) sh4 of
                            (None, sh5) \<Rightarrow> (Inl AddFailedError, Some r0, c2\<lparr>sheet := sh5\<rparr>)
                          | (Some found, sh5) \<Rightarrow>
                              (let saved = recordToSave\<lparr>rkey := Some (int found)\<rparr>;
                                   c3 = clearCached (c2\<lparr>sheet := sh5\<rparr>)
                               in (Inr (Some (getFromSchemaRecord c3 saved)),
                                   (if bypassSchema then Some saved else Some r0), c3)))))))"

text \<open>
  The records of \<open>rs\<close> with the keyless ones replaced, in order, by \<open>adds\<close>: the array
  \<^verbatim>\<open>schemaModels\<close> after \<^verbatim>\<open>add\<close> has assigned keys on the objects of its \<^verbatim>\<open>adds\<close> part.
\<close>

fun merge_adds :: "sdrec list \<Rightarrow> sdrec list \<Rightarrow> sdrec list" where
  "merge_adds [] adds = []"
| "merge_adds (r # rs) adds =
     (if has_key r then r # merge_adds rs adds
      else (case adds of [] \<Rightarrow> r # merge_adds rs [] | a # as \<Rightarrow> a # merge_adds rs as))"

definition upsert ::
  "sdrec list \<Rightarrow> bool \<Rightarrow> collection \<Rightarrow> (error + sdrec list) \<times> sdrec list \<times> collection" where
  "upsert records bypassSchema c =
     (if records = [] then (Inr records, records, c)
      else
        (let c1 = init c
         in case (if bypassSchema then Some records else getRecordsToSave c1 records) of
              None \<Rightarrow> (Inl ValidationError, records, c1)
            | Some schemaModels \<Rightarrow>
                (let updates = filter has_key schemaModels;
                     adds = filter (\<lambda>r. \<not> has_key r) schemaModels
                 in case update updates True c1 of
                      (Inl e, c2) \<Rightarrow> (Inl e, records, c2)
                    | (Inr u, c2) \<Rightarrow>
                        (case add adds True c2 of (res, adds', c3) \<Rightarrow>
                           (let schemaModels' = merge_adds schemaModels adds';
                                records' = (if bypassSchema then schemaModels' else records)
                            in case res of
                                 Inl e \<Rightarrow> (Inl e, records', c3)
                               | Inr a \<Rightarrow>
                                   (Inr (getFromSchemaRecords c3 schemaModels'), records',
                                    clearCached c3))))))"

definition upsertOne ::
  "sdrec option \<Rightarrow> bool \<Rightarrow> collection \<Rightarrow> (error + sdrec option) \<times> sdrec option \<times> collection" where
  "upsertOne record_arg bypassSchema c =
     (case record_arg of
        None \<Rightarrow> (Inr None, None, c)
      | Some r0 \<Rightarrow>
          if \<not> has_key r0 then addOne (Some r0) bypassSchema c
          else (case update [r0] bypassSchema c of
                  (Inl e, c1) \<Rightarrow> (Inl e, Some r0, c1)
                | (Inr saved, c1) \<Rightarrow>
                    (Inr (case saved of [] \<Rightarrow> None | x # xs \<Rightarrow> Some x), Some r0, c1)))"

text \<open>\<^verbatim>\<open>{...existing, ...patch}\<close>.\<close>

definition merged :: "sdrec \<Rightarrow> sdrec \<Rightarrow> sdrec" where
  "merged existing p =
     \<lparr> rkey = (case rkey p of None \<Rightarrow> rkey existing | Some k \<Rightarrow> Some k),
       props = props existing ++ props p \<rparr>"

text \<open>The \<^verbatim>\<open>map\<close> of \<^verbatim>\<open>patch\<close>.\<close>

fun patch_records :: "sdrec list \<Rightarrow> collection \<Rightarrow> (error + sdrec list) \<times> collection" where
  "patch_records [] c = (Inr [], c)"
| "patch_records (p # ps) c =
     (case find_rec (key_val (rkey p)) ''_key'' c of
        (existing, c1) \<Rightarrow>
          if \<not> entry_truthy existing then (Inl NotFoundError, c1)
          else (case patch_records ps c1 of
                  (Inl e, c2) \<Rightarrow> (Inl e, c2)
                | (Inr rs, c2) \<Rightarrow> (Inr (merged (spread existing) p # rs), c2)))"

definition patch :: "sdrec list \<Rightarrow> bool \<Rightarrow> collection \<Rightarrow> (error + sdrec list) \<times> collection" where
  "patch patches bypassSchema c =
     (if patches = [] then (Inr [], c)
      else
        (case patch_records patches (init c) of
           (Inl e, c1) \<Rightarrow> (Inl e, c1)
         | (Inr patchedRecords, c1) \<Rightarrow> update patchedRecords bypassSchema c1))"

text \<open>The \<^verbatim>\<open>forEach\<close> of \<^verbatim>\<open>delete\<close>; \<^verbatim>\<open>new Array(n)\<close> is a row of \<open>n\<close> holes.\<close>

fun delete_rows :: "sdrec list \<Rightarrow> collection \<Rightarrow> (error + unit) \<times> collection" where
  "delete_rows [] c = (Inr (), c)"
| "delete_rows (r # rs) c =
     (case range_row (rkey r) of
        None \<Rightarrow> (Inl ServiceError, c)
      | Some row \<Rightarrow>
          (case getValues row 1 1 (COLUMN_COUNT c) (sheet c) of (vss, sh1) \<Rightarrow>
             if js_String (js_nth (first_row vss) (pkColumnIndex c))
                  \<noteq> js_String (js_nth (record_row (headerRow c) r) (pkColumnIndex c))
             then (Inl StaleWriteError, c\<lparr>sheet := sh1\<rparr>)
             else delete_rows rs
                    (c\<lparr>sheet := setValues row 1 [replicate (COLUMN_COUNT c) VUndef] sh1\<rparr>)))"

definition delete :: "sdrec list \<Rightarrow> collection \<Rightarrow> (error + unit) \<times> collection" where
  "delete records c =
     (case delete_rows records (init c) of
        (Inl e, c1) \<Rightarrow> (Inl e, c1)
      | (Inr u, c1) \<Rightarrow> (Inr (), clearCached c1))"

definition wipe :: "int option \<Rightarrow> collection \<Rightarrow> collection" where
  "wipe rows c =
     (case getMaxRows (sheet c) of (maxRows, sh1) \<Rightarrow>
        (let rowsToWipe =
               (case rows of
                  None \<Rightarrow> int maxRows - 1
                | Some n \<Rightarrow> if 0 \<le> n then min n (int maxRows - 1) else int maxRows - 1)
         in if rowsToWipe = 0 then c\<lparr>sheet := sh1\<rparr>
            else
              (case getMaxColumns sh1 of (maxColumns, sh2) \<Rightarrow>
                 (let sh3 = clearRange 2 1 1 maxColumns sh2;
                      remaining = rowsToWipe - 1
                  in c\<lparr>sheet := (if 0 < remaining then deleteRows 3 (nat remaining) sh3 else sh3)\<rparr>))))"

text \<open>The wait that \<^verbatim>\<open>batch\<close> passes to \<^verbatim>\<open>tryLock\<close>, in milliseconds.\<close>

definition batch_lock_wait :: nat where
  "batch_lock_wait = 30 * 1000"

text \<open>The data block of \<^verbatim>\<open>batch\<close> after the \<^verbatim>\<open>splice\<close> of every update.\<close>

definition spliced :: "val list \<Rightarrow> val list list \<Rightarrow> sdrec list \<Rightarrow> val list list" where
  "spliced headers rows updates =
     foldl (\<lambda>d r. case rkey r of
                     None \<Rightarrow> d
                   | Some k \<Rightarrow> splice1 d (k - ROW_INDEX_OFFSET) (record_row headers r))
           rows updates"

definition batch :: "sdrec list \<Rightarrow> bool \<Rightarrow> collection \<Rightarrow> (error + sdrec list) \<times> collection" where
  "batch records bypassSchema c =
     (if records = [] then (Inr records, c)
      else
        (let c1 = init c
         in case (if bypassSchema then Some records else getRecordsToSave c1 records) of
              None \<Rightarrow> (Inl ValidationError, c1)
            | Some schemaModels \<Rightarrow>
                (let updates = filter has_key schemaModels;
                     adds = filter (\<lambda>r. \<not> has_key r) schemaModels
                 in case sheet_values c1 of (vss, c2) \<Rightarrow>
                      (let rows = spliced (headerRow c2) (tl vss) updates
                                    @ map (record_row (headerRow c2)) adds
                       in case hasLock (tryLock batch_lock_wait (sheet c2)) of (held, sh3) \<Rightarrow>
                            if \<not> held then (Inl LockTimeoutError, c2\<lparr>sheet := sh3\<rparr>)
                            else
                              (let c3 = wipe None (c2\<lparr>sheet := sh3\<rparr>);
                                   sh4 = releaseLock (setValues 2 1 rows (sheet c3))
                               in (Inr (getFromSchemaRecords c3 schemaModels),
                                   clearCached (c3\<lparr>sheet := sh4\<rparr>)))))))"

section \<open>Preflight\<close>

text \<open>
  What \<^verbatim>\<open>preflight(records)\<close> returns: the closure's \<^verbatim>\<open>recordsToSave\<close> and its flag
  \<^verbatim>\<open>transacted\<close>. The commit actions are the six properties that go through \<^verbatim>\<open>transact\<close>.
\<close>

record preflighted =
  recordsToSave :: "sdrec list"
  transacted :: bool

datatype preflight_arg = OneRecord sdrec | ArrayOfRecords "sdrec list"

datatype commit = CommitAddOne | CommitAdd | CommitUpdate | CommitBatch | CommitUpsert | CommitUpsertOne

datatype returned = ReturnedOne "sdrec option" | ReturnedMany "sdrec list"

definition preflight :: "preflight_arg \<Rightarrow> collection \<Rightarrow> error + preflighted" where
  "preflight records c =
     (let arrayOfRecords = (case records of OneRecord r \<Rightarrow> [r] | ArrayOfRecords rs \<Rightarrow> rs)
      in case getRecordsToSave c arrayOfRecords of
           None \<Rightarrow> Inl ValidationError
         | Some rs \<Rightarrow> Inr \<lparr> recordsToSave = rs, transacted = False \<rparr>)"

text \<open>\<^verbatim>\<open>recordsToSave[0]\<close>, and the array with its first object as an action left it.\<close>

definition first_record :: "sdrec list \<Rightarrow> sdrec option" where
  "first_record rs = (case rs of [] \<Rightarrow> None | r # _ \<Rightarrow> Some r)"

definition with_first :: "sdrec option \<Rightarrow> sdrec list \<Rightarrow> sdrec list" where
  "with_first r' rs = (case (r', rs) of (Some x, r # rest) \<Rightarrow> x # rest | _ \<Rightarrow> rs)"

text \<open>The function a commit action hands to \<^verbatim>\<open>transact\<close>, with \<^verbatim>\<open>bypassSchema\<close> true.\<close>

fun commit_fn :: "commit \<Rightarrow> sdrec list \<Rightarrow> collection \<Rightarrow> (error + returned) \<times> sdrec list \<times> collection" where
  "commit_fn CommitAddOne rs c =
     (case addOne (first_record rs) True c of
        (res, r', c1) \<Rightarrow> (map_sum id ReturnedOne res, with_first r' rs, c1))"
| "commit_fn CommitAdd rs c =
     (case add rs True c of (res, rs', c1) \<Rightarrow> (map_sum id ReturnedMany res, rs', c1))"
| "commit_fn CommitUpdate rs c =
     (case update rs True c of (res, c1) \<Rightarrow> (map_sum id ReturnedMany res, rs, c1))"
| "commit_fn CommitBatch rs c =
     (case batch rs True c of (res, c1) \<Rightarrow> (map_sum id ReturnedMany res, rs, c1))"
| "commit_fn CommitUpsert rs c =
     (case upsert rs True c of (res, rs', c1) \<Rightarrow> (map_sum id ReturnedMany res, rs', c1))"
| "commit_fn CommitUpsertOne rs c =
     (case upsertOne (first_record rs) True c of
        (res, r', c1) \<Rightarrow> (map_sum id ReturnedOne res, with_first r' rs, c1))"

definition transact ::
  "commit \<Rightarrow> preflighted \<Rightarrow> collection \<Rightarrow> (error + returned) \<times> preflighted \<times> collection" where
  "transact a pf c =
     (if transacted pf then (Inl TransactionAlreadyCompleteError, pf, c)
      else
        (case commit_fn a (recordsToSave pf) c of
           (Inl e, rs', c1) \<Rightarrow> (Inl e, pf\<lparr>recordsToSave := rs'\<rparr>, c1)
         | (Inr res, rs', c1) \<Rightarrow> (Inr res, pf\<lparr>recordsToSave := rs', transacted := True\<rparr>, c1)))"

text \<open>The accessors \<^verbatim>\<open>record()\<close> and \<^verbatim>\<open>records()\<close>.\<close>

definition pf_records :: "preflighted \<Rightarrow> collection \<Rightarrow> sdrec list" where
  "pf_records pf c = getFromSchemaRecords c (recordsToSave pf)"

definition pf_record :: "preflighted \<Rightarrow> collection \<Rightarrow> sdrec option" where
  "pf_record pf c = first_record (getFromSchemaRecords c (recordsToSave pf))"

section \<open>Predicates used by the properties\<close>

text \<open>The schema hook, if there is one, leaves \<^verbatim>\<open>_key\<close> as it finds it.\<close>

definition keeps_key :: "collection \<Rightarrow> bool" where
  "keeps_key c = (case schema c of None \<Rightarrow> True | Some s \<Rightarrow> (\<forall>r. rkey (parse s r) = rkey r))"

text \<open>
  The rows of the sheet below the header, as \<^verbatim>\<open>data()\<close> reads them: row \<open>i\<close> of this
  list is row \<open>i + 2\<close> of the sheet.
\<close>

definition rows_below_header :: "collection \<Rightarrow> val list list" where
  "rows_below_header c =
     tl (block (grid (sheet c)) 1 1 (last_row (grid (sheet c))) (last_column (grid (sheet c))))"

text \<open>
  What a fresh read of the sheet yields: the header that \<^verbatim>\<open>data()\<close> finds in the sheet, and
  the records of the rows below it. Both are functions of the grid, the primary-key
  column and the schema hook alone.
\<close>

definition header_in_sheet :: "collection \<Rightarrow> val list" where
  "header_in_sheet c =
     first_row (block (grid (sheet c)) 1 1 (last_row (grid (sheet c))) (last_column (grid (sheet c))))"

definition store_records :: "collection \<Rightarrow> sdrec list" where
  "store_records c = kept_rows (c\<lparr>headerRow := header_in_sheet c\<rparr>) (rows_below_header c)"

definition cleared :: "collection \<Rightarrow> bool" where
  "cleared c = (c_data c = None \<and> c_index c = Map.empty \<and> c_related c = Map.empty)"

text \<open>
  The seven mutating calls, and whether a call was handed something to write: a record
  that is not \<^verbatim>\<open>null\<close>, a list that is not empty (\<^verbatim>\<open>delete\<close> has no guard on its list).
  \<open>mutate\<close> runs a call and keeps the error thrown, if any, and the collection afterwards.
\<close>

datatype mutation =
    CallAddOne "sdrec option" bool
  | CallAdd "sdrec list" bool
  | CallUpdate "sdrec list" bool
  | CallUpsert "sdrec list" bool
  | CallPatch "sdrec list" bool
  | CallDelete "sdrec list"
  | CallBatch "sdrec list" bool

definition thrown :: "error + 'a \<Rightarrow> error option" where
  "thrown res = (case res of Inl e \<Rightarrow> Some e | Inr x \<Rightarrow> None)"

fun mutate :: "mutation \<Rightarrow> collection \<Rightarrow> error option \<times> collection" where
  "mutate (CallAddOne r b) c = (case addOne r b c of (res, r', c') \<Rightarrow> (thrown res, c'))"
| "mutate (CallAdd rs b) c = (case add rs b c of (res, rs', c') \<Rightarrow> (thrown res, c'))"
| "mutate (CallUpdate rs b) c = (case update rs b c of (res, c') \<Rightarrow> (thrown res, c'))"
| "mutate (CallUpsert rs b) c = (case upsert rs b c of (res, rs', c') \<Rightarrow> (thrown res, c'))"
| "mutate (CallPatch ps b) c = (case patch ps b c of (res, c') \<Rightarrow> (thrown res, c'))"
| "mutate (CallDelete rs) c = (case delete rs c of (res, c') \<Rightarrow> (thrown res, c'))"
| "mutate (CallBatch rs b) c = (case batch rs b c of (res, c') \<Rightarrow> (thrown res, c'))"


text \<open>
  The optimistic check of \<^verbatim>\<open>update\<close> and \<^verbatim>\<open>delete\<close>: the primary-key entry of the row
  read back from the sheet, whether it differs as a string from the primary-key entry of
  the row about to be written, and the collection once the check has read the row.
\<close>

definition pk_cell :: "collection \<Rightarrow> nat \<Rightarrow> val" where
  "pk_cell c row =
     js_nth (first_row (block (grid (sheet c)) row 1 1 (COLUMN_COUNT c))) (pkColumnIndex c)"

definition drifted :: "collection \<Rightarrow> sdrec \<Rightarrow> nat \<Rightarrow> bool" where
  "drifted c r row =
     (js_String (pk_cell c row) \<noteq> js_String (js_nth (record_row (headerRow c) r) (pkColumnIndex c)))"

definition after_check :: "collection \<Rightarrow> nat \<Rightarrow> collection" where
  "after_check c row = c\<lparr>sheet := logged (GetValues row 1 1 (COLUMN_COUNT c)) (sheet c)\<rparr>"

text \<open>
  The invariant of the cache: an index that is present was built from the records that
  are materialized.
\<close>

definition index_consistent :: "collection \<Rightarrow> bool" where
  "index_consistent c =
     (\<forall>k idx. c_index c k = Some idx \<longrightarrow> (\<exists>d. c_data c = Some d \<and> idx = build_index k d))"

text \<open>The row that \<^verbatim>\<open>addOne\<close> appends for the record it saves.\<close>

definition appended :: "collection \<Rightarrow> sdrec \<Rightarrow> val list" where
  "appended c saved = record_row (headerRow (init c)) saved"

text \<open>
  The block that \<^verbatim>\<open>batch\<close> writes for the records \<open>models\<close> it saves: the rows below the
  header with the row of every record that has a \<^verbatim>\<open>_key\<close> spliced in, then the rows of the
  records that have none.
\<close>

definition batch_block :: "collection \<Rightarrow> sdrec list \<Rightarrow> val list list" where
  "batch_block c models =
     spliced (headerRow (init c)) (rows_below_header c) (filter has_key models)
       @ map (record_row (headerRow (init c))) (filter (\<lambda>r. \<not> has_key r) models)"

section \<open>Example sheets\<close>

text \<open>
  A text finder for the examples: a cell matches when its text is the query's text, whatever
  the options. A cell it matches is also matched by a finder that looks for the query
  inside the cell's text.
\<close>

definition exact_match :: "val \<Rightarrow> bool \<Rightarrow> bool \<Rightarrow> bool \<Rightarrow> val \<Rightarrow> bool" where
  "exact_match q regex matchCell matchCase v = (js_String q \<noteq> [] \<and> js_String q = js_String v)"

definition sheet_of :: "cells \<Rightarrow> gsheet" where
  "sheet_of g = \<lparr> grid = g, text_matches = exact_match, lock_free_after = Some 0,
                  lock_held = False, calls = [] \<rparr>"

text \<open>\<^verbatim>\<open>new SheetDataCollection(sheet)\<close>: no schema, nothing cached, primary key in column 0.\<close>

definition collection_of :: "cells \<Rightarrow> collection" where
  "collection_of g =
     \<lparr> sheet = sheet_of g, schema = None, c_data = None, c_index = Map.empty,
       c_related = Map.empty, pkColumnIndex = 0, headerRow = [], COLUMN_COUNT = 0 \<rparr>"

definition gapped_cells :: cells where
  "gapped_cells =
     [[VStr ''id'', VStr ''name''],
      [VStr ''a'', VStr ''Alpha''],
      [VStr [], VStr []],
      [VStr ''b'', VStr ''Beta'']]"

definition abc_cells :: cells where
  "abc_cells =
     [[VStr ''id'', VStr ''name''],
      [VStr ''a'', VStr ''Alpha''],
      [VStr ''b'', VStr ''Beta'']]"

definition record_of :: "int option \<Rightarrow> (string \<times> val) list \<Rightarrow> sdrec" where
  "record_of k kvs = \<lparr> rkey = k, props = map_of kvs \<rparr>"

definition gamma :: sdrec where
  "gamma = record_of None [(''id'', VStr ''c''), (''name'', VStr ''Gamma'')]"

definition alpha :: sdrec where
  "alpha = record_of (Some 2) [(''id'', VStr ''a''), (''name'', VStr ''Alpha'')]"

text \<open>
  A collection that has read the sheet of \<open>abc_cells\<close>, after which row 2 was blanked
  behind its back.
\<close>

definition blanked :: collection where
  "blanked =
     (snd (data (collection_of abc_cells)))
       \<lparr>sheet := sheet_of [[VStr ''id'', VStr ''name''], [VStr [], VStr []], [VStr ''b'', VStr ''Beta'']]\<rparr>"

text \<open>
  The sheet of \<open>abc_cells\<close> while another execution holds the script lock: for 20 seconds
  more, and for good.
\<close>

definition busy20 :: collection where
  "busy20 = (collection_of abc_cells)\<lparr>sheet := (sheet_of abc_cells)\<lparr>lock_free_after := Some 20000\<rparr>\<rparr>"

definition busy :: collection where
  "busy = (collection_of abc_cells)\<lparr>sheet := (sheet_of abc_cells)\<lparr>lock_free_after := None\<rparr>\<rparr>"

text \<open>
  A preflight of two updates on the sheet of \<open>abc_cells\<close>: the first matches row 2, the
  second names row 3 with an id that row does not hold. Its \<^verbatim>\<open>update()\<close> is called twice.
\<close>

definition alpha2 :: sdrec where
  "alpha2 = record_of (Some 2) [(''id'', VStr ''a''), (''name'', VStr ''A2'')]"

definition stray :: sdrec where
  "stray = record_of (Some 3) [(''id'', VStr ''z''), (''name'', VStr ''Zeta'')]"

definition first_try :: "(error + returned) \<times> preflighted \<times> collection" where
  "first_try =
     transact CommitUpdate \<lparr> recordsToSave = [alpha2, stray], transacted = False \<rparr>
       (collection_of abc_cells)"

definition second_try :: "(error + returned) \<times> preflighted \<times> collection" where
  "second_try = (case first_try of (res, pf, c) \<Rightarrow> transact CommitUpdate pf c)"

text \<open>
  A sheet whose only record has the text \<open>5\<close> as its id, and two records with the number
  5 as theirs: a new one, and one that names a row of its own.
\<close>

definition five_cells :: cells where
  "five_cells = [[VStr ''id''], [VStr ''5'']]"

definition new_five :: sdrec where
  "new_five = record_of None [(''id'', VNum 5)]"

definition old_five :: sdrec where
  "old_five = record_of (Some 9) [(''id'', VNum 5)]"

text \<open>
  A collection that has read the sheet of \<open>abc_cells\<close> and has built the index by id and
  the grouping by name; and a new record whose id names a member of \<^verbatim>\<open>Object.prototype\<close>.
\<close>

definition cached_abc :: collection where
  "cached_abc = snd (related ''name'' (snd (index ''id'' (collection_of abc_cells))))"

definition named_constructor :: sdrec where
  "named_constructor = record_of None [(''id'', VStr ''constructor''), (''name'', VStr ''Delta'')]"

text \<open>A new record whose id is that of the last row of \<open>abc_cells\<close>.\<close>

definition second_b :: sdrec where
  "second_b = record_of None [(''id'', VStr ''b''), (''name'', VStr ''Gamma'')]"

section \<open>Running the model\<close>

text \<open>The definitions unfolded to run the model on an example.\<close>

lemmas service_defs =
  getLastRow_def getLastColumn_def getMaxRows_def getMaxColumns_def getValues_def setValues_def
  appendRow_def clearRange_def deleteRows_def findNext_def findAll_def tryLock_def acquires_def
  hasLock_def
  releaseLock_def logged_def block_def cell_at_def last_row_def last_column_def used_width_def
  row_blank_def max_columns_def blank_def stored_def pad_def put_cells_def put_row_def
  clear_cells_def js_nth_def first_row_def

lemmas collection_defs =
  init_def rowCount_def sheet_values_def getObject_def getRowAsObject_def getRecordsToSave_def
  getFromSchemaRecords_def getRecordToSave_def getFromSchemaRecord_def clearCached_def
  kept_rows_def data_def record_row_def get_prop_def key_val_def key_truthy_def has_key_def
  ROW_INDEX_OFFSET_def range_row_def

lemmas example_defs =
  cached_abc_def named_constructor_def
  collection_of_def sheet_of_def exact_match_def abc_cells_def gapped_cells_def record_of_def
  gamma_def alpha_def alpha2_def stray_def five_cells_def new_five_def old_five_def
  second_b_def

section \<open>Lemmas about reading\<close>

lemma rkey_getObject: "keeps_key c \<Longrightarrow> rkey (getObject c row i) = Some (i + 2)"
  by (simp add: keeps_key_def getObject_def getRowAsObject_def ROW_INDEX_OFFSET_def Let_def
      split: option.splits)

lemma kept_rows_snoc:
  "kept_rows c (rows @ [row]) =
     kept_rows c rows @
       (if js_nth row (pkColumnIndex c) \<noteq> VStr [] then [getObject c row (int (length rows))] else [])"
  by (simp add: kept_rows_def enumerate_append_eq)

lemma kept_rows_eq:
  "kept_rows c rows =
     map (\<lambda>i. getObject c (rows ! i) (int i))
         (filter (\<lambda>i. js_nth (rows ! i) (pkColumnIndex c) \<noteq> VStr []) [0..<length rows])"
proof (induction rows rule: rev_induct)
  case Nil
  then show ?case by (simp add: kept_rows_def)
next
  case (snoc row rows)
  have a: "filter (\<lambda>i. js_nth ((rows @ [row]) ! i) (pkColumnIndex c) \<noteq> VStr []) [0..<length rows]
         = filter (\<lambda>i. js_nth (rows ! i) (pkColumnIndex c) \<noteq> VStr []) [0..<length rows]"
    by (rule filter_cong) (auto simp: nth_append)
  have b: "map (\<lambda>i. getObject c ((rows @ [row]) ! i) (int i))
             (filter (\<lambda>i. js_nth (rows ! i) (pkColumnIndex c) \<noteq> VStr []) [0..<length rows])
         = map (\<lambda>i. getObject c (rows ! i) (int i))
             (filter (\<lambda>i. js_nth (rows ! i) (pkColumnIndex c) \<noteq> VStr []) [0..<length rows])"
    by (rule map_cong) (auto simp: nth_append)
  show ?case
    by (simp add: kept_rows_snoc snoc.IH a b)
qed

lemma sheet_values_eq:
  "sheet_values c =
     (block (grid (sheet c)) 1 1 (last_row (grid (sheet c))) (last_column (grid (sheet c))),
      c\<lparr>sheet := logged (GetValues 1 1 (last_row (grid (sheet c))) (last_column (grid (sheet c))))
                    (logged GetLastColumn (logged GetLastRow (sheet c)))\<rparr>)"
  by (simp add: sheet_values_def rowCount_def getLastRow_def getLastColumn_def getValues_def
      logged_def)

lemma kept_rows_cong:
  "headerRow c = headerRow c' \<Longrightarrow> schema c = schema c' \<Longrightarrow> pkColumnIndex c = pkColumnIndex c'
   \<Longrightarrow> kept_rows c rows = kept_rows c' rows"
  by (simp add: kept_rows_eq getObject_def)

lemma data_unbuilt:
  "c_data c = None \<Longrightarrow>
   fst (data c) = kept_rows (c\<lparr>headerRow := first_row (fst (sheet_values c))\<rparr>) (rows_below_header c)"
  by (simp add: data_def sheet_values_eq rows_below_header_def Let_def)
     (rule kept_rows_cong, simp_all)

lemma data_cached: "c_data (snd (data c)) = Some (fst (data c))"
  by (cases "c_data c") (simp_all add: data_def Let_def split: prod.splits)

lemma data_again: "fst (data (snd (data c))) = fst (data c)"
  using data_cached [of c] by (simp add: data_def)

section \<open>Rows and records\<close>

lemma foldl_props:
  assumes "\<forall>j < length hs. js_nth row j = f (js_String (hs ! j))"
  shows "\<forall>p \<in> js_String ` set hs.
           foldl (\<lambda>m (i, header). m(js_String header \<mapsto> js_nth row i)) Map.empty
             (enumerate 0 hs) p = Some (f p)"
  using assms
proof (induction hs rule: rev_induct)
  case Nil
  then show ?case by simp
next
  case (snoc h hs)
  let ?F = "\<lambda>m (i, header). m(js_String header \<mapsto> js_nth row i)"
  have "\<forall>j < length hs. js_nth row j = f (js_String (hs ! j))"
    using snoc.prems by (auto simp: nth_append split: if_splits)
  then have ih: "\<forall>p \<in> js_String ` set hs. foldl ?F Map.empty (enumerate 0 hs) p = Some (f p)"
    by (rule snoc.IH)
  have last: "js_nth row (length hs) = f (js_String h)"
    using snoc.prems by (auto simp: nth_append)
  have e: "foldl ?F Map.empty (enumerate 0 (hs @ [h]))
             = (foldl ?F Map.empty (enumerate 0 hs))(js_String h \<mapsto> js_nth row (length hs))"
    by (simp add: enumerate_append_eq)
  show ?case
  proof
    fix p
    assume "p \<in> js_String ` set (hs @ [h])"
    then consider "p = js_String h" | "p \<noteq> js_String h" "p \<in> js_String ` set hs"
      by auto
    then show "foldl ?F Map.empty (enumerate 0 (hs @ [h])) p = Some (f p)"
    proof cases
      case 1
      then show ?thesis by (simp only: e fun_upd_same last)
    next
      case 2
      have "foldl ?F Map.empty (enumerate 0 (hs @ [h])) p
              = foldl ?F Map.empty (enumerate 0 hs) p"
        by (subst e) (rule fun_upd_other [OF 2(1)])
      also have "\<dots> = Some (f p)" using ih 2(2) by blast
      finally show ?thesis .
    qed
  qed
qed

text \<open>
  Writing a record as a row and reading the row back gives every header-named field its
  value again, whatever the row index.
\<close>

theorem row_record_round_trip:
  assumes "header \<in> set headers" and "js_String header \<noteq> ''_key''"
  shows "get_prop (getRowAsObject (record_row headers r) i headers) (js_String header)
           = get_prop r (js_String header)"
proof -
  have "\<forall>j < length headers.
          js_nth (record_row headers r) j = get_prop r (js_String (headers ! j))"
    by (simp add: record_row_def js_nth_def)
  from foldl_props [OF this] assms(1)
  have "props (getRowAsObject (record_row headers r) i headers) (js_String header)
          = Some (get_prop r (js_String header))"
    by (simp add: getRowAsObject_def)
  with assms(2) show ?thesis by (simp add: get_prop_def)
qed

theorem row_record_round_trip_witness:
  "VStr ''name'' \<in> set [VStr ''id'', VStr ''name''] \<and> js_String (VStr ''name'') \<noteq> ''_key''
   \<and> get_prop (getRowAsObject (record_row [VStr ''id'', VStr ''name''] alpha) 0
                [VStr ''id'', VStr ''name'']) ''name'' = VStr ''Alpha''"
  using row_record_round_trip [of "VStr ''name''" "[VStr ''id'', VStr ''name'']" alpha 0]
  by (simp add: get_prop_def alpha_def record_of_def)

section \<open>Reading the sheet\<close>

text \<open>
  C7. When \<^verbatim>\<open>data()\<close> reads the sheet (nothing is cached yet), it skips every row below the
  header whose primary-key entry is the empty string and keeps the others in order, and
  the record made of the row at header-excluded index \<open>i\<close> has \<^verbatim>\<open>_key\<close> \<open>i + 2\<close>, its row
  number in the sheet, however many rows were skipped before it. A second call returns
  the same records. (The schema hook, when there is one, must leave \<^verbatim>\<open>_key\<close> alone.)
\<close>

theorem data_skips_blank_rows_and_keys_are_row_numbers:
  assumes "c_data c = None" and "keeps_key c"
  shows "map rkey (fst (data c)) =
           map (\<lambda>i. Some (int i + 2))
             (filter (\<lambda>i. js_nth (rows_below_header c ! i) (pkColumnIndex c) \<noteq> VStr [])
                [0..<length (rows_below_header c)])
         \<and> fst (data (snd (data c))) = fst (data c)"
proof -
  let ?c = "c\<lparr>headerRow := first_row (fst (sheet_values c))\<rparr>"
  have k: "keeps_key ?c" using assms(2) by (simp add: keeps_key_def)
  have "map rkey (kept_rows ?c (rows_below_header c)) =
          map (\<lambda>i. Some (int i + 2))
             (filter (\<lambda>i. js_nth (rows_below_header c ! i) (pkColumnIndex c) \<noteq> VStr [])
                [0..<length (rows_below_header c)])"
    by (simp add: kept_rows_eq rkey_getObject [OF k] comp_def)
  then show ?thesis
    using assms(1) by (simp add: data_unbuilt data_again)
qed

lemma gapped_rows: "rows_below_header (collection_of gapped_cells) = [[VStr ''a'', VStr ''Alpha''],
      [VStr [], VStr []],
      [VStr ''b'', VStr ''Beta'']]"
  by (simp add: rows_below_header_def collection_of_def sheet_of_def gapped_cells_def block_def
         last_row_def last_column_def used_width_def row_blank_def blank_def cell_at_def)

theorem data_keys_witness:
  "c_data (collection_of gapped_cells) = None \<and> keeps_key (collection_of gapped_cells)
   \<and> map rkey (fst (data (collection_of gapped_cells))) = [Some 2, Some 4]"
proof -
  have h1: "c_data (collection_of gapped_cells) = None" by (simp add: collection_of_def)
  have h2: "keeps_key (collection_of gapped_cells)" by (simp add: keeps_key_def collection_of_def)
  have p: "pkColumnIndex (collection_of gapped_cells) = 0" by (simp add: collection_of_def)
  show ?thesis
    using data_skips_blank_rows_and_keys_are_row_numbers [OF h1 h2] h1 h2
    by (simp add: gapped_rows p js_nth_def)
qed

section \<open>Cache invalidation\<close>

lemma cleared_clearCached [simp]: "cleared (clearCached c)"
  by (simp add: cleared_def clearCached_def)










lemma data_cleared: "cleared c \<Longrightarrow> fst (data c) = store_records c"
  by (simp add: cleared_def data_unbuilt store_records_def header_in_sheet_def sheet_values_eq)


lemma related_cleared: "cleared c \<Longrightarrow> fst (related k c) = build_related k (store_records c)"
  using data_cleared [of c]
  by (cases "data c") (simp add: cleared_def related_def split: sum.splits)





lemma build_related_snoc:
  "build_related k (d @ [r]) =
     (case build_related k d of Inl e \<Rightarrow> Inl e | Inr obj \<Rightarrow> related_step k obj r)"
  by (simp add: build_related_def)

lemma build_related_plain:
  assumes "\<forall>r \<in> set d. js_String (get_prop r k) \<notin> set object_prototype"
  shows "build_related k d =
           Inr (\<lambda>s. if \<exists>r \<in> set d. js_String (get_prop r k) = s
                    then Some (filter (\<lambda>r. js_String (get_prop r k) = s) d) else None)"
  using assms
proof (induction d rule: rev_induct)
  case Nil
  then show ?case by (simp add: build_related_def)
next
  case (snoc x d)
  then have ih: "build_related k d =
           Inr (\<lambda>s. if \<exists>r \<in> set d. js_String (get_prop r k) = s
                    then Some (filter (\<lambda>r. js_String (get_prop r k) = s) d) else None)"
    and x: "js_String (get_prop x k) \<notin> set object_prototype"
    by simp_all
  show ?case
    using x by (auto simp: build_related_snoc ih related_step_def fun_eq_iff filter_empty_conv)
qed

lemma build_related_inherited:
  assumes "\<exists>r \<in> set d. js_String (get_prop r k) \<in> set object_prototype"
  shows "build_related k d = Inl TypeError"
  using assms
proof (induction d rule: rev_induct)
  case Nil
  then show ?case by simp
next
  case (snoc x d)
  show ?case
  proof (cases "\<exists>r \<in> set d. js_String (get_prop r k) \<in> set object_prototype")
    case True
    then show ?thesis by (simp add: build_related_snoc snoc.IH)
  next
    case False
    then have plain: "\<forall>r \<in> set d. js_String (get_prop r k) \<notin> set object_prototype" by simp
    from False snoc.prems have x: "js_String (get_prop x k) \<in> set object_prototype" by auto
    with plain have "\<not> (\<exists>r \<in> set d. js_String (get_prop r k) = js_String (get_prop x k))"
      by auto
    with x show ?thesis
      by (simp add: build_related_snoc build_related_plain [OF plain] related_step_def)
  qed
qed



text \<open>
  When a value of the field names a member of \<^verbatim>\<open>Object.prototype\<close>, \<^verbatim>\<open>related(field)\<close> on a
  collection with nothing cached reads the sheet and throws a \<open>TypeError\<close>: so it does after
  \<^verbatim>\<open>add\<close> has saved a record whose id is \<open>constructor\<close>.
\<close>

lemma related_of_inherited_name:
  assumes "cleared c"
    and "\<exists>r \<in> set (store_records c). js_String (get_prop r field) \<in> set object_prototype"
  shows "fst (related field c) = Inl TypeError"
  using build_related_inherited [OF assms(2)] by (simp add: related_cleared [OF assms(1)])

lemma related_of_inherited_name_example:
  "fst (mutate (CallAdd [named_constructor] False) (collection_of abc_cells)) = None
   \<and> fst (related ''id'' (snd (mutate (CallAdd [named_constructor] False) (collection_of abc_cells))))
       = Inl TypeError"
  by (simp add: add_def thrown_def related_def build_related_def related_step_def
        object_prototype_def service_defs collection_defs example_defs Let_def)

section \<open>The optimistic write check\<close>

lemma pk_cell_eq:
  "pkColumnIndex c < COLUMN_COUNT c \<Longrightarrow> pk_cell c row = cell_at (grid (sheet c)) row (pkColumnIndex c + 1)"
  by (simp add: pk_cell_def block_def first_row_def js_nth_def)

lemma update_rows_append:
  "update_rows pre c = (Inr (), cm) \<Longrightarrow> update_rows (pre @ rs) c = update_rows rs cm"
  by (induction pre arbitrary: c) (auto split: prod.splits sum.splits)

lemma delete_rows_append:
  "delete_rows pre c = (Inr (), cm) \<Longrightarrow> delete_rows (pre @ rs) c = delete_rows rs cm"
  by (induction pre arbitrary: c) (auto split: prod.splits sum.splits option.splits if_splits)

lemma update_rows_drifted:
  "range_row (rkey r) = Some row \<Longrightarrow> drifted c r row
   \<Longrightarrow> update_rows (r # post) c = (Inl StaleWriteError, after_check c row)"
  by (simp add: updateRow_def drifted_def pk_cell_def getValues_def after_check_def)

lemma delete_rows_drifted:
  "range_row (rkey r) = Some row \<Longrightarrow> drifted c r row
   \<Longrightarrow> delete_rows (r # post) c = (Inl StaleWriteError, after_check c row)"
  by (simp add: drifted_def pk_cell_def getValues_def after_check_def)

text \<open>
  C2. Let a record with a \<^verbatim>\<open>_key\<close> (a row number \<open>row\<close>) be passed to \<^verbatim>\<open>update\<close> or
  \<^verbatim>\<open>delete\<close>, after the records \<open>pre\<close> and before the records \<open>post\<close>. If the records before
  it were written and, when its turn comes, the primary-key cell stored at its row differs
  as a string from the primary-key value about to be written, the operation fails with
  \<open>StaleWriteError\<close>, and the collection it leaves is the collection as the check found it
  with only the check's read added: the row is not written, nor is any row of \<open>post\<close>,
  and the caches are as they were. Blanking the row behind the collection's back is such
  a difference, as the example after the theorem shows.
\<close>

theorem stale_write_is_rejected:
  assumes "range_row (rkey r) = Some row"
  shows "((if bypassSchema then Some records else getRecordsToSave (init c) records)
             = Some (pre @ r # post)
           \<and> update_rows pre (init c) = (Inr (), cu) \<and> drifted cu r row
          \<longrightarrow> update records bypassSchema c = (Inl StaleWriteError, after_check cu row))
       \<and> (delete_rows pre (init c) = (Inr (), cd) \<and> drifted cd r row
          \<longrightarrow> delete (pre @ r # post) c = (Inl StaleWriteError, after_check cd row))"
proof (intro conjI impI)
  assume a: "(if bypassSchema then Some records else getRecordsToSave (init c) records)
               = Some (pre @ r # post)
             \<and> update_rows pre (init c) = (Inr (), cu) \<and> drifted cu r row"
  then have ne: "records \<noteq> []"
    by (auto simp: getRecordsToSave_def split: if_splits option.splits)
  from a have "update_rows (pre @ r # post) (init c) = update_rows (r # post) cu"
    by (simp add: update_rows_append del: update_rows.simps)
  moreover from a have "update_rows (r # post) cu = (Inl StaleWriteError, after_check cu row)"
    by (intro update_rows_drifted [OF assms]) simp
  ultimately have "update_rows (pre @ r # post) (init c) = (Inl StaleWriteError, after_check cu row)"
    by simp
  with a ne show "update records bypassSchema c = (Inl StaleWriteError, after_check cu row)"
    by (simp add: update_def Let_def)
next
  assume a: "delete_rows pre (init c) = (Inr (), cd) \<and> drifted cd r row"
  then have "delete_rows (pre @ r # post) (init c) = delete_rows (r # post) cd"
    by (simp add: delete_rows_append del: delete_rows.simps)
  moreover from a have "delete_rows (r # post) cd = (Inl StaleWriteError, after_check cd row)"
    by (intro delete_rows_drifted [OF assms]) simp
  ultimately have "delete_rows (pre @ r # post) (init c) = (Inl StaleWriteError, after_check cd row)"
    by simp
  then show "delete (pre @ r # post) c = (Inl StaleWriteError, after_check cd row)"
    by (simp add: delete_def)
qed

theorem stale_write_is_rejected_witness:
  "range_row (rkey alpha) = Some 2
   \<and> drifted (init blanked) alpha 2
   \<and> fst (update [alpha] False blanked) = Inl StaleWriteError
   \<and> grid (sheet (snd (update [alpha] False blanked))) = grid (sheet blanked)
   \<and> fst (delete [alpha] blanked) = Inl StaleWriteError
   \<and> grid (sheet (snd (delete [alpha] blanked))) = grid (sheet blanked)"
proof -
  have k: "range_row (rkey alpha) = Some 2"
    by (simp add: alpha_def record_of_def range_row_def)
  have d: "drifted (init blanked) alpha 2"
    by (simp add: drifted_def pk_cell_def blanked_def service_defs collection_defs
          example_defs Let_def)
  have s: "(if False then Some [alpha] else getRecordsToSave (init blanked) [alpha]) = Some ([] @ alpha # [])"
    by (simp add: blanked_def service_defs collection_defs example_defs Let_def)
  have g: "grid (sheet (after_check (init blanked) 2)) = grid (sheet blanked)"
    by (simp add: after_check_def init_def service_defs split: prod.splits)
  have "update [alpha] False blanked = (Inl StaleWriteError, after_check (init blanked) 2)"
    and "delete ([] @ alpha # []) blanked = (Inl StaleWriteError, after_check (init blanked) 2)"
    using stale_write_is_rejected [OF k, of False "[alpha]" blanked "[]" "[]" "init blanked" "init blanked"] d s
    by simp_all
  then show ?thesis using k d g by simp
qed

section \<open>The lock of batch\<close>

lemma init_frame:
  "grid (sheet (init c)) = grid (sheet c)"
  "lock_held (sheet (init c)) = lock_held (sheet c)"
  "lock_free_after (sheet (init c)) = lock_free_after (sheet c)"
  "\<exists>evs. calls (sheet (init c)) = calls (sheet c) @ evs \<and> filter is_write evs = []"
  by (simp_all add: init_def getLastColumn_def getValues_def logged_def)

lemma sheet_values_frame:
  "grid (sheet (snd (sheet_values c))) = grid (sheet c)"
  "lock_held (sheet (snd (sheet_values c))) = lock_held (sheet c)"
  "lock_free_after (sheet (snd (sheet_values c))) = lock_free_after (sheet c)"
  "\<exists>evs. calls (sheet (snd (sheet_values c))) = calls (sheet c) @ evs \<and> filter is_write evs = []"
  by (simp_all add: sheet_values_eq logged_def)

lemma acquires_cong:
  "lock_held sh = lock_held sh' \<Longrightarrow> lock_free_after sh = lock_free_after sh' \<Longrightarrow> acquires ms sh = acquires ms sh'"
  by (simp add: acquires_def)

text \<open>
  C3, as stated, fails. The lock is busy for another 20 seconds, so a wait of 10 seconds
  does not get it; \<^verbatim>\<open>batch\<close> waits 30 seconds, gets it, and rewrites the block.
\<close>

theorem batch_lock_wait_counterexample:
  "\<not> acquires 10000 (sheet busy20)
   \<and> fst (batch [gamma] False busy20) = Inr [gamma]
   \<and> grid (sheet (snd (batch [gamma] False busy20))) = abc_cells @ [[VStr ''c'', VStr ''Gamma'']]
   \<and> filter is_write (calls (sheet (snd (batch [gamma] False busy20))))
        = [ClearRange 2 1 1 2, DeleteRows 3 1, SetValues 2 1 (tl abc_cells @ [[VStr ''c'', VStr ''Gamma'']])]
   \<and> TryLock 30000 \<in> set (calls (sheet (snd (batch [gamma] False busy20))))"
  by (simp add: busy20_def batch_def batch_lock_wait_def wipe_def spliced_def splice1_def
        service_defs collection_defs example_defs Let_def)

text \<open>
  C3, amended. \<^verbatim>\<open>batch\<close> of a non-empty list that passes the schema hook asks for the lock
  with a wait of 30 seconds, a constant of the code. Whenever the lock is not acquired
  within that wait, \<^verbatim>\<open>batch\<close> fails with \<open>LockTimeoutError\<close> and the grid is as it was: the
  calls made are reads and the lock attempt, no wipe and no block write.
\<close>

theorem batch_lock_timeout:
  assumes "records \<noteq> []"
    and "(if bypassSchema then Some records else getRecordsToSave (init c) records) \<noteq> None"
    and "\<not> acquires batch_lock_wait (sheet c)"
  shows "batch_lock_wait = 30000
         \<and> fst (batch records bypassSchema c) = Inl LockTimeoutError
         \<and> grid (sheet (snd (batch records bypassSchema c))) = grid (sheet c)
         \<and> (\<exists>evs. calls (sheet (snd (batch records bypassSchema c))) = calls (sheet c) @ evs
                  \<and> filter is_write evs = [] \<and> TryLock 30000 \<in> set evs)"
proof -
  obtain rs where rs: "(if bypassSchema then Some records else getRecordsToSave (init c) records) = Some rs"
    using assms(2) by auto
  obtain vss c2 where sv: "sheet_values (init c) = (vss, c2)" by (cases "sheet_values (init c)")
  have c2: "c2 = snd (sheet_values (init c))" using sv by simp
  have na: "\<not> acquires batch_lock_wait (sheet c2)"
    using assms(3) acquires_cong [of "sheet c2" "sheet c" batch_lock_wait]
    by (simp add: c2 sheet_values_frame init_frame)
  have b: "batch records bypassSchema c =
             (Inl LockTimeoutError, c2\<lparr>sheet := logged HasLock (tryLock batch_lock_wait (sheet c2))\<rparr>)"
    using assms(1) rs sv na
    by (simp add: batch_def Let_def hasLock_def tryLock_def logged_def)
  obtain e1 where e1: "calls (sheet (init c)) = calls (sheet c) @ e1" "filter is_write e1 = []"
    using init_frame(4) [of c] by auto
  obtain e2 where e2: "calls (sheet c2) = calls (sheet (init c)) @ e2" "filter is_write e2 = []"
    using sheet_values_frame(4) [of "init c"] by (auto simp: c2)
  have g: "grid (sheet c2) = grid (sheet c)"
    by (simp add: c2 sheet_values_frame init_frame)
  have "calls (sheet (snd (batch records bypassSchema c)))
          = calls (sheet c) @ (e1 @ e2 @ [TryLock 30000, HasLock])"
    by (simp add: b tryLock_def logged_def e1 e2 batch_lock_wait_def)
  moreover have "filter is_write (e1 @ e2 @ [TryLock 30000, HasLock]) = []"
    by (simp add: e1 e2)
  moreover have "TryLock 30000 \<in> set (e1 @ e2 @ [TryLock 30000, HasLock])" by simp
  ultimately have "\<exists>evs. calls (sheet (snd (batch records bypassSchema c))) = calls (sheet c) @ evs
                  \<and> filter is_write evs = [] \<and> TryLock 30000 \<in> set evs"
    by blast
  then show ?thesis
    by (simp add: b g tryLock_def logged_def batch_lock_wait_def)
qed

theorem batch_lock_timeout_witness:
  "[gamma] \<noteq> [] \<and> \<not> acquires batch_lock_wait (sheet busy)
   \<and> fst (batch [gamma] False busy) = Inl LockTimeoutError
   \<and> grid (sheet (snd (batch [gamma] False busy))) = abc_cells"
proof -
  have v: "(if False then Some [gamma] else getRecordsToSave (init busy) [gamma]) \<noteq> None"
    by (simp add: busy_def service_defs collection_defs example_defs Let_def)
  have a: "\<not> acquires batch_lock_wait (sheet busy)"
    by (simp add: busy_def acquires_def sheet_of_def)
  have g: "grid (sheet busy) = abc_cells" by (simp add: busy_def sheet_of_def)
  show ?thesis
    using batch_lock_timeout [OF _ v a] a g by simp
qed

section \<open>What batch returns\<close>

lemma splice1_in_range:
  "0 \<le> i \<Longrightarrow> nat i < length xs \<Longrightarrow> splice1 xs i x = xs[nat i := x]"
  by (auto simp: splice1_def Let_def upd_conv_take_nth_drop min_def)

lemma calls_release_set:
  "calls (releaseLock (setValues r col vss sh)) = calls sh @ [SetValues r col vss, ReleaseLock]"
  by (simp add: releaseLock_def setValues_def logged_def)

lemma calls_lock_attempt:
  "calls (logged HasLock (tryLock ms sh)) = calls sh @ [TryLock ms, HasLock]"
  by (simp add: tryLock_def logged_def)

lemma sheet_clearCached: "sheet (clearCached c) = sheet c"
  by (simp add: clearCached_def)

lemma wipe_frame:
  "\<exists>evs. calls (sheet (wipe rows c)) = calls (sheet c) @ evs \<and> filter is_set_values evs = []"
  by (simp add: wipe_def Let_def getMaxRows_def getMaxColumns_def clearRange_def deleteRows_def
        logged_def)

lemma wipe_schema: "schema (wipe rows c) = schema c"
  by (simp add: wipe_def Let_def getMaxRows_def getMaxColumns_def)

lemma init_calls_sv:
  "\<exists>evs. calls (sheet (init c)) = calls (sheet c) @ evs \<and> filter is_set_values evs = []"
  by (simp add: init_def getLastColumn_def getValues_def logged_def)

lemma rows_below_header_init: "rows_below_header (init c) = rows_below_header c"
  by (simp add: rows_below_header_def init_frame)

text \<open>
  What \<^verbatim>\<open>batch\<close> does when it gets the lock: for a non-empty list that passes the schema
  hook it returns the saved records and calls \<^verbatim>\<open>setValues\<close> exactly once, at row 2, with
  the block above. By \<open>splice1_in_range\<close> a record whose \<^verbatim>\<open>_key\<close> is a row of the block
  replaces row \<open>_key - 2\<close> of it.
\<close>

theorem batch_rewrites_block_once:
  assumes "records \<noteq> []"
    and "(if bypassSchema then Some records else getRecordsToSave (init c) records) = Some models"
    and "acquires batch_lock_wait (sheet c)"
  shows "fst (batch records bypassSchema c) = Inr (getFromSchemaRecords c models)
         \<and> (\<exists>evs. calls (sheet (snd (batch records bypassSchema c))) = calls (sheet c) @ evs
                  \<and> filter is_set_values evs = [SetValues 2 1 (batch_block c models)])"
proof -
  let ?c1 = "init c"
  let ?c2 = "snd (sheet_values ?c1)"
  let ?rows = "batch_block c models"
  let ?sh3 = "logged HasLock (tryLock batch_lock_wait (sheet ?c2))"
  let ?c3 = "wipe None (?c2\<lparr>sheet := ?sh3\<rparr>)"
  have sv: "sheet_values ?c1 = (fst (sheet_values ?c1), ?c2)" by simp
  have hr: "headerRow ?c2 = headerRow ?c1" by (simp add: sheet_values_eq)
  have sc: "schema ?c3 = schema c"
    by (simp add: wipe_schema sheet_values_eq init_def getLastColumn_def getValues_def
        split: prod.splits)
  have tl: "tl (fst (sheet_values ?c1)) = rows_below_header c"
    by (simp add: sheet_values_eq rows_below_header_def init_frame)
  have acq: "acquires batch_lock_wait (sheet ?c2)"
    using assms(3) acquires_cong [of "sheet ?c2" "sheet c" batch_lock_wait]
    by (simp add: sheet_values_frame init_frame)
  have b: "batch records bypassSchema c =
             (Inr (getFromSchemaRecords ?c3 models),
              clearCached (?c3\<lparr>sheet := releaseLock (setValues 2 1 ?rows (sheet ?c3))\<rparr>))"
    using assms(1,2) acq
    by (simp add: batch_def Let_def split_def hasLock_def tryLock_def logged_def hr tl
          batch_block_def)
  obtain e1 where e1: "calls (sheet ?c1) = calls (sheet c) @ e1" "filter is_set_values e1 = []"
    using init_calls_sv [of c] by auto
  have e2: "calls (sheet ?c2) = calls (sheet ?c1) @ [GetLastRow, GetLastColumn,
              GetValues 1 1 (last_row (grid (sheet ?c1))) (last_column (grid (sheet ?c1)))]"
    by (simp add: sheet_values_eq logged_def)
  obtain e3 where e3: "calls (sheet ?c3) = calls ?sh3 @ e3" "filter is_set_values e3 = []"
    using wipe_frame [of None "?c2\<lparr>sheet := ?sh3\<rparr>"] by auto
  have "calls (sheet (snd (batch records bypassSchema c)))
          = calls (sheet c) @ (e1 @ [GetLastRow, GetLastColumn,
              GetValues 1 1 (last_row (grid (sheet ?c1))) (last_column (grid (sheet ?c1))),
              TryLock batch_lock_wait, HasLock] @ e3 @ [SetValues 2 1 ?rows, ReleaseLock])"
    by (simp add: b sheet_clearCached calls_release_set e3 calls_lock_attempt e2 e1)
  moreover have "filter is_set_values (e1 @ [GetLastRow, GetLastColumn,
              GetValues 1 1 (last_row (grid (sheet ?c1))) (last_column (grid (sheet ?c1))),
              TryLock batch_lock_wait, HasLock] @ e3 @ [SetValues 2 1 ?rows, ReleaseLock])
            = [SetValues 2 1 ?rows]"
    by (simp add: e1 e3)
  ultimately have "\<exists>evs. calls (sheet (snd (batch records bypassSchema c))) = calls (sheet c) @ evs
                  \<and> filter is_set_values evs = [SetValues 2 1 ?rows]"
    by blast
  moreover have "getFromSchemaRecords ?c3 models = getFromSchemaRecords c models"
    by (simp add: getFromSchemaRecords_def sc)
  ultimately show ?thesis by (simp add: b)
qed

theorem batch_rewrites_block_once_witness:
  "[alpha2, gamma] \<noteq> []
   \<and> (if False then Some [alpha2, gamma]
        else getRecordsToSave (init (collection_of abc_cells)) [alpha2, gamma]) = Some [alpha2, gamma]
   \<and> acquires batch_lock_wait (sheet (collection_of abc_cells))
   \<and> fst (batch [alpha2, gamma] False (collection_of abc_cells)) = Inr [alpha2, gamma]
   \<and> filter is_set_values (calls (sheet (snd (batch [alpha2, gamma] False (collection_of abc_cells)))))
       = [SetValues 2 1 [[VStr ''a'', VStr ''A2''], [VStr ''b'', VStr ''Beta''],
                         [VStr ''c'', VStr ''Gamma'']]]"
proof -
  let ?c = "collection_of abc_cells"
  have v: "(if False then Some [alpha2, gamma] else getRecordsToSave (init ?c) [alpha2, gamma])
             = Some [alpha2, gamma]"
    by (simp add: service_defs collection_defs example_defs Let_def)
  have a: "acquires batch_lock_wait (sheet ?c)"
    by (simp add: acquires_def example_defs)
  have blk: "batch_block ?c [alpha2, gamma]
               = [[VStr ''a'', VStr ''A2''], [VStr ''b'', VStr ''Beta''], [VStr ''c'', VStr ''Gamma'']]"
    by (simp add: batch_block_def spliced_def splice1_def rows_below_header_def
          service_defs collection_defs example_defs Let_def)
  have r: "getFromSchemaRecords ?c [alpha2, gamma] = [alpha2, gamma]"
    by (simp add: getFromSchemaRecords_def example_defs)
  have c0: "calls (sheet ?c) = []" by (simp add: example_defs)
  from batch_rewrites_block_once [OF _ v a] v a show ?thesis
    by (auto simp: blk r c0)
qed

text \<open>
  \<^verbatim>\<open>batch\<close> returns \<^verbatim>\<open>_getFromSchemaRecords(schemaModels)\<close>, and nothing between the schema
  hook and the return assigns a \<^verbatim>\<open>_key\<close>: without a schema the records come back as they
  went in.
\<close>

lemma batch_returns_its_input:
  "schema c = None \<Longrightarrow> batch records bypassSchema c = (Inr res, c') \<Longrightarrow> res = records"
  by (auto simp: batch_def Let_def getRecordsToSave_def getFromSchemaRecords_def init_def
        wipe_def sheet_values_eq
      split: option.splits prod.splits if_splits)

text \<open>
  C4 at a failing input. \<^verbatim>\<open>batch\<close> of one new record on the sheet of \<open>abc_cells\<close>, with
  the lock free: the record is appended as row 4, where the next \<^verbatim>\<open>data()\<close> reads it with
  \<^verbatim>\<open>_key\<close> 4, but the record returned has no \<^verbatim>\<open>_key\<close>. \<^verbatim>\<open>upsert\<close>, which splits its input the
  same way and appends through \<^verbatim>\<open>add\<close>, returns the record with \<^verbatim>\<open>_key\<close> 4.
\<close>

theorem batch_returns_new_record_without_key:
  "fst (batch [gamma] False (collection_of abc_cells)) = Inr [gamma]
   \<and> rkey gamma = None
   \<and> grid (sheet (snd (batch [gamma] False (collection_of abc_cells))))
        = abc_cells @ [[VStr ''c'', VStr ''Gamma'']]
   \<and> map (\<lambda>r. (rkey r, get_prop r ''id''))
        (fst (data (snd (batch [gamma] False (collection_of abc_cells)))))
        = [(Some 2, VStr ''a''), (Some 3, VStr ''b''), (Some 4, VStr ''c'')]
   \<and> map_sum id (map rkey) (fst (upsert [gamma] False (collection_of abc_cells))) = Inr [Some 4]"
  by (simp add: batch_def batch_lock_wait_def wipe_def spliced_def splice1_def upsert_def
        add_def update_def service_defs collection_defs example_defs Let_def)

section \<open>Preflight commits\<close>

text \<open>
  What \<^verbatim>\<open>transact\<close> guarantees: once a commit action of a preflight instance has returned
  normally, every later invocation of any commit action on that instance fails with
  \<open>TransactionAlreadyCompleteError\<close> and leaves the collection as it finds it, without a
  call of the service. An instance that is complete refuses every commit action. The flag
  is set after the action has returned, so an action that throws leaves it unset.
\<close>

lemma preflight_commits_once:
  "(fst (transact a pf c) = Inr res \<longrightarrow>
      transacted (fst (snd (transact a pf c)))
      \<and> (\<forall>b c2. transact b (fst (snd (transact a pf c))) c2
                   = (Inl TransactionAlreadyCompleteError, fst (snd (transact a pf c)), c2)))
   \<and> (transacted pf \<longrightarrow> transact a pf c = (Inl TransactionAlreadyCompleteError, pf, c))
   \<and> (\<not> transacted pf \<and> fst (transact a pf c) = Inl e \<longrightarrow>
        \<not> transacted (fst (snd (transact a pf c))))"
  by (auto simp: transact_def split: prod.splits sum.splits)

lemma preflight_commits_once_example:
  "map_sum id (\<lambda>r. ()) (fst (transact CommitAdd \<lparr> recordsToSave = [gamma], transacted = False \<rparr> (collection_of abc_cells))) = Inr ()
   \<and> fst (transact CommitBatch
            (fst (snd (transact CommitAdd \<lparr> recordsToSave = [gamma], transacted = False \<rparr> (collection_of abc_cells))))
            (snd (snd (transact CommitAdd \<lparr> recordsToSave = [gamma], transacted = False \<rparr> (collection_of abc_cells)))))
       = Inl TransactionAlreadyCompleteError"
proof -
  let ?t = "transact CommitAdd \<lparr> recordsToSave = [gamma], transacted = False \<rparr> (collection_of abc_cells)"
  have ok: "map_sum id (\<lambda>r. ()) (fst ?t) = Inr ()"
    by (simp add: transact_def add_def service_defs collection_defs example_defs Let_def)
  then obtain res where r: "fst ?t = Inr res" by (cases "fst ?t") auto
  from preflight_commits_once [of CommitAdd "\<lparr> recordsToSave = [gamma], transacted = False \<rparr>" "collection_of abc_cells" res] r
  have "transact CommitBatch (fst (snd ?t)) (snd (snd ?t))
          = (Inl TransactionAlreadyCompleteError, fst (snd ?t), snd (snd ?t))"
    by blast
  with ok show ?thesis by simp
qed

text \<open>
  C5 at a failing input. A preflight of two updates on the sheet of \<open>abc_cells\<close>; the
  second names row 3 with an id that row does not hold. The first \<^verbatim>\<open>update()\<close> writes row 2
  and then throws \<open>StaleWriteError\<close> at row 3. The second \<^verbatim>\<open>update()\<close> on the same instance is
  not refused with \<open>TransactionAlreadyCompleteError\<close>: it runs again, writes row 2 a second
  time and throws \<open>StaleWriteError\<close> again.
\<close>

theorem preflight_commit_runs_again_after_failure:
  "preflight (ArrayOfRecords [alpha2, stray]) (collection_of abc_cells)
     = Inr \<lparr> recordsToSave = [alpha2, stray], transacted = False \<rparr>
   \<and> fst first_try = Inl StaleWriteError
   \<and> fst second_try = Inl StaleWriteError
   \<and> filter is_write (calls (sheet (snd (snd second_try))))
        = [SetValues 2 1 [[VStr ''a'', VStr ''A2'']], SetValues 2 1 [[VStr ''a'', VStr ''A2'']]]"
  by (simp add: preflight_def first_try_def second_try_def transact_def update_def updateRow_def
        service_defs collection_defs example_defs Let_def)

section \<open>Uniqueness\<close>

lemma foldl_index_dom:
  "(foldl (\<lambda>obj r. obj(f r \<mapsto> r)) m d s \<noteq> None) = (m s \<noteq> None \<or> (\<exists>r \<in> set d. f r = s))"
  by (induction d arbitrary: m) auto

lemma build_index_dom:
  "(build_index k d s \<noteq> None) = (\<exists>r \<in> set d. js_String (get_prop r k) = s)"
  using foldl_index_dom [of "\<lambda>r. js_String (get_prop r k)" Map.empty d s]
  by (simp add: build_index_def)

lemma index_of_data:
  assumes "index_consistent c"
  shows "fst (index k c) = build_index k (fst (data c))"
proof (cases "c_index c k")
  case None
  then show ?thesis by (cases "data c") (simp add: index_def Let_def)
next
  case (Some idx)
  with assms obtain d where "c_data c = Some d" "idx = build_index k d"
    by (auto simp: index_consistent_def)
  with Some show ?thesis by (simp add: index_def data_def)
qed

text \<open>
  The cache functions keep the invariant: it holds of a collection with nothing cached,
  and \<^verbatim>\<open>data()\<close>, \<^verbatim>\<open>index(key)\<close> and \<^verbatim>\<open>clearCached()\<close> preserve it.
\<close>

lemma index_consistent_clearCached: "index_consistent (clearCached c)"
  by (simp add: index_consistent_def clearCached_def)

lemma index_consistent_data: "index_consistent c \<Longrightarrow> index_consistent (snd (data c))"
  by (cases "c_data c")
     (auto simp: index_consistent_def data_def Let_def sheet_values_eq split: prod.splits)

lemma index_consistent_index:
  assumes "index_consistent c"
  shows "index_consistent (snd (index k c))"
proof (cases "c_index c k")
  case None
  obtain d c1 where d: "data c = (d, c1)" by (cases "data c")
  have c1: "index_consistent c1" "c_data c1 = Some d"
    using index_consistent_data [OF assms] data_cached [of c] by (simp_all add: d)
  then show ?thesis
    by (auto simp: index_def None d Let_def index_consistent_def)
next
  case (Some idx)
  with assms show ?thesis by (simp add: index_def)
qed

lemma five: "nat_digits 5 = ''5''"
  by (simp add: nat_digits.simps digit_char_def)

text \<open>
  C6, as stated, fails. The collection holds one record, at row 2, whose id is the text
  \<open>5\<close>. A record with the number 5 as its id has the same value either way; without a
  \<^verbatim>\<open>_key\<close> it is refused (the index is keyed by the string form of the value), with a \<^verbatim>\<open>_key\<close>
  of its own (9) it is accepted (the scan compares the values themselves). The claim's
  condition, that some other record has an equal value, is the same for the two.
\<close>

theorem enforceUnique_counterexample:
  "fst (enforceUnique new_five ''id'' (collection_of five_cells)) = Inl ConflictError
   \<and> fst (enforceUnique old_five ''id'' (collection_of five_cells)) = Inr ()
   \<and> get_prop new_five ''id'' = get_prop old_five ''id''
   \<and> map (\<lambda>r. (rkey r, get_prop r ''id'')) (fst (data (collection_of five_cells))) = [(Some 2, VStr ''5'')]"
  by (auto simp: enforceUnique_def index_def build_index_def js_get_def five
      service_defs collection_defs example_defs Let_def)

lemma js_get_plain:
  "obj ''__proto__'' = None \<Longrightarrow> s \<notin> set object_prototype
   \<Longrightarrow> is_undefined (js_get obj s) = (obj s = None)"
  by (simp add: js_get_def native_def split: option.splits)

text \<open>
  C6, amended. Let the field not name a member of \<^verbatim>\<open>Object.prototype\<close>. For a record
  without a (truthy) \<^verbatim>\<open>_key\<close> whose value of the field does not name such a member either,
  in a collection none of whose records holds \<^verbatim>\<open>__proto__\<close> in the field, \<^verbatim>\<open>enforceUnique\<close>
  throws \<open>ConflictError\<close> exactly when some record of \<^verbatim>\<open>data()\<close> has a value of the field with
  the same string form as the record's (the test through \<^verbatim>\<open>index(prop)\<close>). For a record
  with a \<^verbatim>\<open>_key\<close>, it throws exactly when some record of \<^verbatim>\<open>data()\<close> with a different \<^verbatim>\<open>_key\<close>
  has the very same value (the scan). Otherwise it raises nothing.
\<close>

theorem enforceUnique_conflicts:
  assumes "index_consistent c" and "p \<notin> set object_prototype"
  shows "(\<not> key_truthy r \<and> js_String (get_prop r p) \<notin> set object_prototype
            \<and> (\<forall>oth \<in> set (fst (data c)). js_String (get_prop oth p) \<noteq> ''__proto__'') \<longrightarrow>
            (fst (enforceUnique r p c) = Inl ConflictError) =
            (\<exists>oth \<in> set (fst (data c)). js_String (get_prop oth p) = js_String (get_prop r p)))
       \<and> (key_truthy r \<longrightarrow>
            (fst (enforceUnique r p c) = Inl ConflictError) =
            (\<exists>oth \<in> set (fst (data c)). rkey oth \<noteq> rkey r \<and> get_prop oth p = get_prop r p))
       \<and> (fst (enforceUnique r p c) \<noteq> Inl ConflictError \<longrightarrow> fst (enforceUnique r p c) = Inr ())"
proof (intro conjI impI)
  assume h: "\<not> key_truthy r \<and> js_String (get_prop r p) \<notin> set object_prototype
            \<and> (\<forall>oth \<in> set (fst (data c)). js_String (get_prop oth p) \<noteq> ''__proto__'')"
  have "fst (enforceUnique r p c) =
          (if \<not> is_undefined (js_get (fst (index p c)) (js_String (get_prop r p)))
           then Inl ConflictError else Inr ())"
    using h by (cases "index p c") (simp add: enforceUnique_def)
  moreover have "fst (index p c) ''__proto__'' = None"
    using h build_index_dom [of p "fst (data c)" "''__proto__''"]
    by (simp add: index_of_data [OF assms(1)])
  ultimately show "(fst (enforceUnique r p c) = Inl ConflictError) =
            (\<exists>oth \<in> set (fst (data c)). js_String (get_prop oth p) = js_String (get_prop r p))"
    using h build_index_dom [of p "fst (data c)" "js_String (get_prop r p)"]
    by (simp add: js_get_plain index_of_data [OF assms(1)])
next
  assume k: "key_truthy r"
  have "fst (enforceUnique r p c) =
          (if \<exists>oth \<in> set (fst (data c)). rkey oth \<noteq> rkey r \<and> get_prop oth p = get_prop r p
           then Inl ConflictError else Inr ())"
    using k by (cases "data c") (auto simp: enforceUnique_def Let_def image_iff)
  then show "(fst (enforceUnique r p c) = Inl ConflictError) =
            (\<exists>oth \<in> set (fst (data c)). rkey oth \<noteq> rkey r \<and> get_prop oth p = get_prop r p)"
    by auto
next
  assume "fst (enforceUnique r p c) \<noteq> Inl ConflictError"
  then show "fst (enforceUnique r p c) = Inr ()"
    by (cases "index p c"; cases "data c") (auto simp: enforceUnique_def Let_def split: if_splits)
qed

theorem enforceUnique_conflicts_witness:
  "index_consistent (collection_of abc_cells)
   \<and> ''id'' \<notin> set object_prototype
   \<and> \<not> key_truthy (record_of None [(''id'', VStr ''a'')])
   \<and> fst (enforceUnique (record_of None [(''id'', VStr ''a'')]) ''id'' (collection_of abc_cells)) = Inl ConflictError
   \<and> fst (enforceUnique (record_of None [(''id'', VStr ''z'')]) ''id'' (collection_of abc_cells)) = Inr ()
   \<and> key_truthy alpha
   \<and> fst (enforceUnique alpha ''id'' (collection_of abc_cells)) = Inr ()"
proof -
  let ?c = "collection_of abc_cells"
  let ?n = "record_of None [(''id'', VStr ''a'')]"
  let ?z = "record_of None [(''id'', VStr ''z'')]"
  have i: "index_consistent ?c" by (simp add: index_consistent_def collection_of_def)
  have p: "''id'' \<notin> set object_prototype" by (simp add: object_prototype_def)
  have nk: "\<not> key_truthy ?n" "\<not> key_truthy ?z"
    by (simp_all add: key_truthy_def key_val_def record_of_def)
  have k: "key_truthy alpha" by (simp add: key_truthy_def key_val_def record_of_def alpha_def)
  have d: "map (\<lambda>r. (rkey r, get_prop r ''id'')) (fst (data ?c)) = [(Some 2, VStr ''a''), (Some 3, VStr ''b'')]"
    by (simp add: service_defs collection_defs example_defs Let_def)
  then obtain r2 r3 where rs: "fst (data ?c) = [r2, r3]" "rkey r2 = Some 2" "get_prop r2 ''id'' = VStr ''a''"
     "rkey r3 = Some 3" "get_prop r3 ''id'' = VStr ''b''"
    by auto
  have plain: "js_String (get_prop ?n ''id'') \<notin> set object_prototype"
     "js_String (get_prop ?z ''id'') \<notin> set object_prototype"
     "\<forall>oth \<in> set (fst (data ?c)). js_String (get_prop oth ''id'') \<noteq> ''__proto__''"
    by (simp_all add: rs) (simp_all add: get_prop_def record_of_def object_prototype_def)
  have a: "\<exists>oth \<in> set (fst (data ?c)). js_String (get_prop oth ''id'') = js_String (get_prop ?n ''id'')"
    by (simp add: rs) (simp add: get_prop_def record_of_def)
  have z: "\<not> (\<exists>oth \<in> set (fst (data ?c)). js_String (get_prop oth ''id'') = js_String (get_prop ?z ''id''))"
    by (simp add: rs) (simp add: get_prop_def record_of_def)
  have b: "\<not> (\<exists>oth \<in> set (fst (data ?c)). rkey oth \<noteq> rkey alpha \<and> get_prop oth ''id'' = get_prop alpha ''id'')"
    by (simp add: rs) (simp add: get_prop_def record_of_def alpha_def)
  from enforceUnique_conflicts [OF i p, of ?n] nk(1) plain(1,3) a
  have 1: "fst (enforceUnique ?n ''id'' ?c) = Inl ConflictError" by blast
  from enforceUnique_conflicts [OF i p, of ?z] nk(2) plain(2,3) z
  have 2: "fst (enforceUnique ?z ''id'' ?c) = Inr ()" by blast
  from enforceUnique_conflicts [OF i p, of alpha] k b
  have 3: "fst (enforceUnique alpha ''id'' ?c) = Inr ()" by blast
  from i p nk k 1 2 3 show ?thesis by simp
qed

text \<open>
  The test through the index is a read of a plain object, so a record without a \<^verbatim>\<open>_key\<close>
  whose value names a member of \<^verbatim>\<open>Object.prototype\<close> is refused whether or not a record of
  the collection holds that value: a new record whose id is \<open>constructor\<close> is refused on the
  sheet of \<open>abc_cells\<close>.
\<close>

lemma enforceUnique_inherited_name:
  assumes "index_consistent c" and "\<not> key_truthy r"
    and "js_String (get_prop r p) \<in> set object_prototype"
    and "\<forall>oth \<in> set (fst (data c)). js_String (get_prop oth p) \<noteq> ''__proto__''"
  shows "fst (enforceUnique r p c) = Inl ConflictError"
proof -
  have "fst (index p c) ''__proto__'' = None"
    using assms(4) build_index_dom [of p "fst (data c)" "''__proto__''"]
    by (simp add: index_of_data [OF assms(1)])
  then have "\<not> is_undefined (js_get (fst (index p c)) (js_String (get_prop r p)))"
    using assms(3) by (simp add: js_get_def native_def split: option.splits)
  then show ?thesis
    using assms(2) by (cases "index p c") (simp add: enforceUnique_def)
qed

lemma enforceUnique_inherited_name_example:
  "fst (enforceUnique named_constructor ''id'' (collection_of abc_cells)) = Inl ConflictError
   \<and> map (\<lambda>r. get_prop r ''id'') (fst (data (collection_of abc_cells))) = [VStr ''a'', VStr ''b'']"
  by (simp add: enforceUnique_def index_def build_index_def js_get_def native_def
        object_prototype_def service_defs collection_defs example_defs Let_def)

section \<open>Appending one record\<close>

lemma last_row_le: "last_row g \<le> length g"
  using length_dropWhile_le [of row_blank "rev g"] by (simp add: last_row_def)

lemma rows_after_last_blank: "list_all row_blank (drop (last_row g) g)"
proof -
  have "rev (takeWhile row_blank (rev g) @ dropWhile row_blank (rev g)) = rev (rev g)"
    by (simp only: takeWhile_dropWhile_id)
  then have g: "g = rev (dropWhile row_blank (rev g)) @ rev (takeWhile row_blank (rev g))"
    by (simp only: rev_append rev_rev_ident)
  have "drop (last_row g) (rev (dropWhile row_blank (rev g)) @ rev (takeWhile row_blank (rev g)))
          = rev (takeWhile row_blank (rev g))"
    by (simp add: last_row_def)
  with g have "drop (last_row g) g = rev (takeWhile row_blank (rev g))" by simp
  moreover have "list_all row_blank (rev (takeWhile row_blank (rev g)))"
    by (auto simp: list_all_iff dest: set_takeWhileD)
  ultimately show ?thesis by simp
qed

lemma dropWhile_over:
  "list_all P ys \<Longrightarrow> \<not> P x \<Longrightarrow> dropWhile P (ys @ x # zs) = x # zs"
  by (induction ys) auto

lemma last_row_after_used:
  "\<not> row_blank x \<Longrightarrow> list_all row_blank bs \<Longrightarrow> last_row (xs @ [x] @ bs) = Suc (length xs)"
  by (simp add: last_row_def dropWhile_over)

lemma put_cells_first: "put_cells old (Suc 0) vs = map stored vs @ drop (length vs) old"
  by (simp add: put_cells_def pad_def Let_def)

lemma row_blank_put_cells:
  "row_blank old \<Longrightarrow> row_blank (put_cells old (Suc 0) vs) = row_blank (map stored vs)"
  by (auto simp: put_cells_first row_blank_def list_all_iff dest: in_set_dropD)

lemma put_row_split:
  "n \<le> length g \<Longrightarrow>
   put_row g (Suc n) (Suc 0) vs =
     take n g @ [put_cells (if n < length g then g ! n else []) (Suc 0) vs] @ drop (Suc n) g"
  by (cases "n < length g")
     (simp_all add: put_row_def pad_def Let_def upd_conv_take_nth_drop nth_append list_update_append)

lemma last_row_appended:
  assumes "\<not> row_blank (map stored vs)"
  shows "last_row (put_row g (Suc (last_row g)) (Suc 0) vs) = Suc (last_row g)"
proof -
  let ?n = "last_row g"
  let ?old = "if ?n < length g then g ! ?n else []"
  have b: "list_all row_blank (drop ?n g)" by (rule rows_after_last_blank)
  have both: "row_blank ?old \<and> list_all row_blank (drop (Suc ?n) g)"
  proof (cases "?n < length g")
    case True
    then have "drop ?n g = g ! ?n # drop (Suc ?n) g" by (simp add: Cons_nth_drop_Suc)
    with b True show ?thesis by simp
  next
    case False
    then show ?thesis by (simp add: row_blank_def)
  qed
  have nb: "\<not> row_blank (put_cells ?old (Suc 0) vs)"
    using assms row_blank_put_cells [of ?old vs] both by simp
  have "last_row (take ?n g @ [put_cells ?old (Suc 0) vs] @ drop (Suc ?n) g) = Suc (length (take ?n g))"
    using nb both by (intro last_row_after_used) simp_all
  then show ?thesis
    by (simp add: put_row_split [OF last_row_le] min_absorb2 last_row_le)
qed

lemma cell_at_appended:
  assumes "n \<le> length g" and "k < length vs"
  shows "cell_at (put_row g (Suc n) (Suc 0) vs) (Suc n) (Suc k) = stored (vs ! k)"
  using assms
  by (simp add: put_row_split cell_at_def nth_append put_cells_first)

lemma cell_at_before_appended:
  assumes "n \<le> length g" and "r \<le> n"
  shows "cell_at (put_row g (Suc n) (Suc 0) vs) r c = cell_at g r c"
  using assms
  by (auto simp: put_row_split cell_at_def nth_append)

lemma find_second:
  "\<not> P n \<Longrightarrow> P (Suc n) \<Longrightarrow> 2 \<le> m \<Longrightarrow> List.find P [n..<n + m] = Some (Suc n)"
proof -
  assume a: "\<not> P n" "P (Suc n)" "2 \<le> m"
  then obtain k where m: "m = Suc (Suc k)" by (metis Suc_le_D numeral_2_eq_2 Suc_le_mono)
  have "[n..<n + m] = n # Suc n # [Suc (Suc n)..<n + m]"
    by (simp add: m upt_rec [of n] upt_rec [of "Suc n"])
  with a show ?thesis by simp
qed

text \<open>
  C8 at a failing input. The sheet of \<open>abc_cells\<close> has 3 rows. \<^verbatim>\<open>addOne\<close> of a record whose
  id is that of the last row appends row 4, then looks for the id from row 3 on, finds
  it in row 3, and returns the record with \<^verbatim>\<open>_key\<close> 3, not 4: the key of another record.
  \<^verbatim>\<open>add\<close> of the same record on the same sheet returns it with \<^verbatim>\<open>_key\<close> 4.
\<close>

theorem addOne_returns_key_of_earlier_row:
  "last_row (grid (sheet (collection_of abc_cells))) = 3
   \<and> map_sum id (map_option rkey) (fst (addOne (Some second_b) False (collection_of abc_cells)))
       = Inr (Some (Some 3))
   \<and> grid (sheet (snd (snd (addOne (Some second_b) False (collection_of abc_cells)))))
       = abc_cells @ [[VStr ''b'', VStr ''Gamma'']]
   \<and> map_sum id (map rkey) (fst (add [second_b] False (collection_of abc_cells))) = Inr [Some 4]"
  by (simp add: addOne_def add_def service_defs collection_defs example_defs Let_def)

text \<open>
  What \<^verbatim>\<open>addOne\<close> does with a record that is not \<^verbatim>\<open>null\<close> and passes the schema hook. It
  appends exactly one row, at row \<open>currentRowCount + 1\<close>, and writes nothing else. It then
  searches the primary-key column, from row \<open>currentRowCount\<close> on, for the primary-key value:
  it fails with \<open>AddFailedError\<close> exactly when nothing matches, and otherwise returns the
  saved record with the row of the first match as its \<^verbatim>\<open>_key\<close>. That row is
  \<open>currentRowCount + 1\<close> whenever the sheet has a header row, the appended row is not blank,
  the appended primary-key cell matches its own value and the primary-key cell of row
  \<open>currentRowCount\<close> does not.
\<close>

lemma addOne_appends_one_row:
  assumes "(if bypassSchema then Some r else getRecordToSave (init c) r) = Some saved"
  shows "grid (sheet (snd (snd (addOne (Some r) bypassSchema c))))
           = put_row (grid (sheet c)) (Suc (last_row (grid (sheet c)))) 1 (appended c saved)
         \<and> (\<exists>evs. calls (sheet (snd (snd (addOne (Some r) bypassSchema c)))) = calls (sheet c) @ evs
                  \<and> filter is_write evs = [AppendRow (appended c saved)])
         \<and> fst (addOne (Some r) bypassSchema c)
             = (case List.find
                       (\<lambda>i. text_matches (sheet c) (js_nth (appended c saved) (pkColumnIndex c))
                               False False False
                               (cell_at (put_row (grid (sheet c)) (Suc (last_row (grid (sheet c)))) 1
                                           (appended c saved))
                                  i (pkColumnIndex c + 1)))
                       [last_row (grid (sheet c))..<
                        last_row (grid (sheet c))
                          + last_row (put_row (grid (sheet c)) (Suc (last_row (grid (sheet c)))) 1
                                        (appended c saved))] of
                  None \<Rightarrow> Inl AddFailedError
                | Some found \<Rightarrow>
                    Inr (Some (getFromSchemaRecord (init c) (saved\<lparr>rkey := Some (int found)\<rparr>))))
         \<and> (1 \<le> last_row (grid (sheet c))
             \<and> pkColumnIndex c < length (appended c saved)
             \<and> \<not> row_blank (map stored (appended c saved))
             \<and> \<not> text_matches (sheet c) (appended c saved ! pkColumnIndex c) False False False
                   (cell_at (grid (sheet c)) (last_row (grid (sheet c))) (pkColumnIndex c + 1))
             \<and> text_matches (sheet c) (appended c saved ! pkColumnIndex c) False False False
                   (stored (appended c saved ! pkColumnIndex c))
             \<and> keeps_key c
             \<longrightarrow> (\<exists>rec. fst (addOne (Some r) bypassSchema c) = Inr (Some rec)
                        \<and> rkey rec = Some (int (last_row (grid (sheet c))) + 1)))"
proof -
  let ?g = "grid (sheet c)"
  let ?n = "last_row ?g"
  let ?row = "appended c saved"
  let ?g' = "put_row ?g (Suc ?n) (Suc 0) ?row"
  let ?q = "js_nth ?row (pkColumnIndex c)"
  let ?sh1 = "sheet (init c)"
  let ?sh5 = "logged (FindNext ?q) (logged GetLastRow (appendRow ?row (logged GetLastRow ?sh1)))"
  let ?found = "List.find (\<lambda>i. text_matches (sheet c) ?q False False False
                               (cell_at ?g' i (pkColumnIndex c + 1)))
                  [?n..<?n + last_row ?g']"
  have tm: "text_matches ?sh1 = text_matches (sheet c)"
    by (simp add: init_def getLastColumn_def getValues_def logged_def)
  have pk: "pkColumnIndex (init c) = pkColumnIndex c"
    by (simp add: init_def getLastColumn_def getValues_def split: prod.splits)
  have sc: "schema (init c) = schema c"
    by (simp add: init_def getLastColumn_def getValues_def split: prod.splits)
  have gi: "grid ?sh1 = ?g" by (rule init_frame)
  have res: "addOne (Some r) bypassSchema c =
               (case ?found of
                  None \<Rightarrow> (Inl AddFailedError, Some r, (init c)\<lparr>sheet := ?sh5\<rparr>)
                | Some found \<Rightarrow>
                    (Inr (Some (getFromSchemaRecord (init c) (saved\<lparr>rkey := Some (int found)\<rparr>))),
                     (if bypassSchema then Some (saved\<lparr>rkey := Some (int found)\<rparr>) else Some r),
                     clearCached ((init c)\<lparr>sheet := ?sh5\<rparr>)))"
    using assms
    by (simp add: addOne_def Let_def rowCount_def getLastRow_def findNext_def appendRow_def
          logged_def appended_def gi tm pk getFromSchemaRecord_def clearCached_def
        split: option.splits)
  have g5: "grid ?sh5 = ?g'"
    by (simp add: logged_def appendRow_def gi)
  obtain e1 where e1: "calls ?sh1 = calls (sheet c) @ e1" "filter is_write e1 = []"
    using init_frame(4) [of c] by auto
  have c5: "calls ?sh5 = calls (sheet c) @ (e1 @ [GetLastRow, AppendRow ?row, GetLastRow, FindNext ?q])"
    by (simp add: logged_def appendRow_def e1)
  have w5: "filter is_write (e1 @ [GetLastRow, AppendRow ?row, GetLastRow, FindNext ?q]) = [AppendRow ?row]"
    by (simp add: e1)
  have sheet_after: "sheet (snd (snd (addOne (Some r) bypassSchema c))) = ?sh5"
    by (simp add: res clearCached_def split: option.splits)
  have p1: "grid (sheet (snd (snd (addOne (Some r) bypassSchema c)))) = ?g'"
    by (simp add: sheet_after g5)
  have p2: "\<exists>evs. calls (sheet (snd (snd (addOne (Some r) bypassSchema c)))) = calls (sheet c) @ evs
                  \<and> filter is_write evs = [AppendRow ?row]"
    using c5 w5 by (simp only: sheet_after) blast
  have p3: "fst (addOne (Some r) bypassSchema c)
             = (case ?found of
                  None \<Rightarrow> Inl AddFailedError
                | Some found \<Rightarrow>
                    Inr (Some (getFromSchemaRecord (init c) (saved\<lparr>rkey := Some (int found)\<rparr>))))"
    by (simp add: res split: option.splits)
  have p4: "\<exists>rec. fst (addOne (Some r) bypassSchema c) = Inr (Some rec)
                        \<and> rkey rec = Some (int ?n + 1)"
    if h: "1 \<le> ?n" "pkColumnIndex c < length ?row" "\<not> row_blank (map stored ?row)"
       "\<not> text_matches (sheet c) (?row ! pkColumnIndex c) False False False
                   (cell_at ?g ?n (pkColumnIndex c + 1))"
       "text_matches (sheet c) (?row ! pkColumnIndex c) False False False
                   (stored (?row ! pkColumnIndex c))"
       "keeps_key c"
  proof -
    have q: "?q = ?row ! pkColumnIndex c" using h(2) by (simp add: js_nth_def)
    have lr: "last_row ?g' = Suc ?n" using h(3) by (rule last_row_appended)
    have a: "cell_at ?g' ?n (Suc (pkColumnIndex c)) = cell_at ?g ?n (Suc (pkColumnIndex c))"
      by (rule cell_at_before_appended [OF last_row_le]) simp
    have b: "cell_at ?g' (Suc ?n) (Suc (pkColumnIndex c)) = stored (?row ! pkColumnIndex c)"
      using cell_at_appended [OF last_row_le h(2), of ?g] by simp
    have f: "?found = Some (Suc ?n)"
      using h(1,4,5) by (intro find_second) (simp_all add: q a b lr)
    have k: "rkey (getFromSchemaRecord (init c) (saved\<lparr>rkey := Some (int (Suc ?n))\<rparr>)) = Some (int (Suc ?n))"
      using h(6) by (simp add: getFromSchemaRecord_def keeps_key_def sc split: option.splits)
    have "fst (addOne (Some r) bypassSchema c)
            = Inr (Some (getFromSchemaRecord (init c) (saved\<lparr>rkey := Some (int (Suc ?n))\<rparr>)))"
      by (simp only: res f option.case fst_conv)
    with k show ?thesis by simp
  qed
  from p1 p2 p3 p4 show ?thesis by simp
qed

lemma addOne_appends_one_row_example:
  "(if False then Some gamma else getRecordToSave (init (collection_of abc_cells)) gamma) = Some gamma
   \<and> last_row (grid (sheet (collection_of abc_cells))) = 3
   \<and> (\<exists>rec. fst (addOne (Some gamma) False (collection_of abc_cells)) = Inr (Some rec)
             \<and> rkey rec = Some 4)
   \<and> grid (sheet (snd (snd (addOne (Some gamma) False (collection_of abc_cells)))))
       = abc_cells @ [[VStr ''c'', VStr ''Gamma'']]"
proof -
  let ?c = "collection_of abc_cells"
  have v: "(if False then Some gamma else getRecordToSave (init ?c) gamma) = Some gamma"
    by (simp add: service_defs collection_defs example_defs Let_def)
  have row: "appended ?c gamma = [VStr ''c'', VStr ''Gamma'']"
    by (simp add: appended_def service_defs collection_defs example_defs Let_def)
  have n: "last_row (grid (sheet ?c)) = 3"
    by (simp add: service_defs example_defs)
  have h: "1 \<le> last_row (grid (sheet ?c))
             \<and> pkColumnIndex ?c < length (appended ?c gamma)
             \<and> \<not> row_blank (map stored (appended ?c gamma))
             \<and> \<not> text_matches (sheet ?c) (appended ?c gamma ! pkColumnIndex ?c) False False False
                   (cell_at (grid (sheet ?c)) (last_row (grid (sheet ?c))) (pkColumnIndex ?c + 1))
             \<and> text_matches (sheet ?c) (appended ?c gamma ! pkColumnIndex ?c) False False False
                   (stored (appended ?c gamma ! pkColumnIndex ?c))
             \<and> keeps_key ?c"
    by (simp add: row n keeps_key_def) (simp add: service_defs example_defs)
  have g: "put_row (grid (sheet ?c)) (Suc (last_row (grid (sheet ?c)))) 1 (appended ?c gamma)
             = abc_cells @ [[VStr ''c'', VStr ''Gamma'']]"
    by (simp add: row n) (simp add: service_defs example_defs)
  have k: "\<exists>rec. fst (addOne (Some gamma) False ?c) = Inr (Some rec)
                 \<and> rkey rec = Some (int (last_row (grid (sheet ?c))) + 1)"
    using addOne_appends_one_row [OF v] h by blast
  have g1: "grid (sheet (snd (snd (addOne (Some gamma) False ?c))))
              = put_row (grid (sheet ?c)) (Suc (last_row (grid (sheet ?c)))) 1 (appended ?c gamma)"
    using addOne_appends_one_row [OF v] by blast
  from k g1 n g v show ?thesis
    by simp
qed

section \<open>Lookup\<close>

text \<open>
  The test of \<^verbatim>\<open>lookup\<close> compares a boolean with \<^verbatim>\<open>null\<close> and is false in every state, so
  \<^verbatim>\<open>lookup\<close> is the text-finder scan whether or not \<^verbatim>\<open>data()\<close> was materialized.
\<close>

lemma lookup_always_scans:
  "lookup v k c =
     (case fts v False True False c of (rs, c1) \<Rightarrow> (array_find (\<lambda>r. get_prop r k = v) rs, c1))"
  by (simp add: lookup_def bool_is_null_def)

text \<open>
  C9 at a failing input. The collection \<open>blanked\<close> has materialized the records of
  \<open>abc_cells\<close>; row 2 of the sheet was blanked since. \<^verbatim>\<open>find('a', 'id')\<close> answers from the
  cached index, without a call of the service, with the record of row 2. \<^verbatim>\<open>lookup('a', 'id')\<close>
  does not take that path: it runs the text finder on the sheet and returns \<^verbatim>\<open>undefined\<close>.
\<close>

theorem lookup_ignores_materialized_cache:
  "c_data blanked \<noteq> None
   \<and> fst (find_rec (VStr ''a'') ''id'' blanked)
       = Record (getRowAsObject [VStr ''a'', VStr ''Alpha''] 0 [VStr ''id'', VStr ''name''])
   \<and> calls (sheet (snd (find_rec (VStr ''a'') ''id'' blanked))) = []
   \<and> fst (lookup (VStr ''a'') ''id'' blanked) = Absent
   \<and> calls (sheet (snd (lookup (VStr ''a'') ''id'' blanked))) = [GetLastColumn, FindAll (VStr ''a'')]"
  by (simp add: blanked_def lookup_def bool_is_null_def fts_def find_rec_def index_def
        build_index_def js_get_def array_find_def service_defs collection_defs example_defs
        Let_def)

section \<open>Empty input\<close>

text \<open>
  C10. Given an empty list, \<^verbatim>\<open>add\<close>, \<^verbatim>\<open>update\<close>, \<^verbatim>\<open>patch\<close> and \<^verbatim>\<open>batch\<close> return an empty
  result and the collection exactly as it was: the caches are as before (not cleared), the
  grid is as before, and no call of the spreadsheet service was made (the list of calls is
  part of the collection returned).
\<close>

theorem empty_input_is_a_no_op:
  "add [] bypassSchema c = (Inr [], [], c)
   \<and> update [] bypassSchema c = (Inr [], c)
   \<and> patch [] bypassSchema c = (Inr [], c)
   \<and> batch [] bypassSchema c = (Inr [], c)"
  by (simp add: add_def update_def patch_def batch_def)

end
